theory Spec2Isabelle
  imports Complex_Main "HOL-Library.Multiset" "HOL-Library.Word"
begin

section \<open>Data model\<close>

text \<open>
  Documents are records with the fields of the mongoose schemas. An ObjectId is a natural
  number (only equality of ids is ever used), a timestamp is a number of milliseconds.
  A collection is the list of its documents in insertion order.
\<close>

type_synonym oid = nat
type_synonym time = nat

text \<open>
  A JavaScript string is a sequence of UTF-16 code units. The texts that users send (the
  content of a post, the text of a comment) are modelled so; the fixed texts of the
  program (messages, field names, the two privacy values) are HOL strings. A privacy
  value is only ever compared with the two enum values, and one that is neither is
  rejected whatever it is.
\<close>

type_synonym code_unit = "16 word"
type_synonym js_string = "code_unit list"

text \<open>The code units of an ASCII text.\<close>

definition utf16 :: "string \<Rightarrow> js_string" where
  "utf16 s = map (\<lambda>c. of_nat (of_char c)) s"

text \<open>
  Modelled from the spec: the User model (models/User.js) is not among the sources. The
  handlers only read users through \<open>populate\<close>, which selects the display fields of a
  user; the spec gives a user an id and an email.
\<close>

record user =
  user_id :: oid
  user_email :: string

text \<open>models/Post.js: content, image (default null), privacy (default "public"), author,
  and the two timestamps of \<open>timestamps: true\<close>.\<close>

record post =
  post_id :: oid
  post_content :: js_string
  post_image :: "string option"
  post_privacy :: string
  post_author :: oid
  post_createdAt :: time
  post_updatedAt :: time

text \<open>models/Comment.js: parent is null (\<open>None\<close>) for a top-level comment.\<close>

record comment =
  comment_id :: oid
  comment_text :: js_string
  comment_post :: oid
  comment_author :: oid
  comment_parent :: "oid option"
  comment_createdAt :: time
  comment_updatedAt :: time

text \<open>models/Like.js: targetType is the enum ["Post", "Comment"].\<close>

datatype target_type = TPost | TComment

record like =
  like_id :: oid
  like_user :: oid
  like_targetType :: target_type
  like_targetId :: oid
  like_createdAt :: time
  like_updatedAt :: time

text \<open>The database: one list per collection, and the next ObjectId the driver hands out.\<close>

record store =
  users :: "user list"
  posts :: "post list"
  comments :: "comment list"
  likes :: "like list"
  next_id :: oid

definition init_store :: "user list \<Rightarrow> store" where
  "init_store us = \<lparr>users = us, posts = [], comments = [], likes = [], next_id = 0\<rparr>"

section \<open>Responses\<close>

text \<open>
  Every handler answers with a status code and a JSON envelope. A failure is an
  \<open>error\<close>: 400 with the list of (field, message) pairs, 404 and 403 with a message, and
  \<open>Unexpected\<close> for whatever is passed to \<open>next(error)\<close>.

  Modelled from the spec: the error handler behind \<open>next(error)\<close>
  (middleware/errorHandler.js) is not among the sources; the spec has it answer 500.
\<close>

datatype error =
    ValidationError "(string \<times> string) list"
  | NotFound string
  | Forbidden string
  | Unexpected string

fun error_status :: "error \<Rightarrow> nat" where
  "error_status (ValidationError _) = 400"
| "error_status (NotFound _) = 404"
| "error_status (Forbidden _) = 403"
| "error_status (Unexpected _) = 500"

record populated_post =
  pp_post :: post
  pp_author :: "user option"

record feed_item =
  fi_post :: post
  fi_author :: "user option"
  fi_likeCount :: nat
  fi_isLiked :: bool

record pagination =
  pg_page :: int
  pg_limit :: int
  pg_total :: nat
  pg_pages :: int

record populated_comment =
  pc_comment :: comment
  pc_author :: "user option"

record reply_item =
  ri_comment :: comment
  ri_author :: "user option"
  ri_likeCount :: nat
  ri_isLiked :: bool

record comment_item =
  ci_comment :: comment
  ci_author :: "user option"
  ci_likeCount :: nat
  ci_isLiked :: bool
  ci_replies :: "reply_item list"

record liker =
  lk_user :: "user option"
  lk_likedAt :: time

datatype payload =
    PostCreated string populated_post
  | Feed "feed_item list" pagination
  | PostUpdated string populated_post
  | Deleted string
  | LikeToggled string bool nat
  | Likers "liker list"
  | CommentCreated string populated_comment
  | CommentList "comment_item list"

fun payload_status :: "payload \<Rightarrow> nat" where
  "payload_status (PostCreated _ _) = 201"
| "payload_status (CommentCreated _ _) = 201"
| "payload_status _ = 200"

type_synonym response = "error + payload"

fun status :: "response \<Rightarrow> nat" where
  "status (Inl e) = error_status e"
| "status (Inr p) = payload_status p"

section \<open>Store queries\<close>

definition populate_user :: "store \<Rightarrow> oid \<Rightarrow> user option" where
  "populate_user s uid = find (\<lambda>u. user_id u = uid) (users s)"

definition find_post :: "store \<Rightarrow> oid \<Rightarrow> post option" where
  "find_post s pid = find (\<lambda>p. post_id p = pid) (posts s)"

definition find_comment :: "store \<Rightarrow> oid \<Rightarrow> comment option" where
  "find_comment s cid = find (\<lambda>c. comment_id c = cid) (comments s)"

text \<open>\<open>sort({createdAt: -1})\<close>: newest first.\<close>

definition sort_desc :: "('a \<Rightarrow> time) \<Rightarrow> 'a list \<Rightarrow> 'a list" where
  "sort_desc f xs = rev (sort_key f xs)"

text \<open>\<open>findByIdAndDelete\<close> removes one document: the first with that id.\<close>

fun delete_by_id :: "('a \<Rightarrow> oid) \<Rightarrow> oid \<Rightarrow> 'a list \<Rightarrow> 'a list" where
  "delete_by_id f i [] = []"
| "delete_by_id f i (x # xs) = (if f x = i then xs else x # delete_by_id f i xs)"

text \<open>\<open>doc.save()\<close> writes the document back under its id.\<close>

fun save_post :: "post \<Rightarrow> post list \<Rightarrow> post list" where
  "save_post p [] = []"
| "save_post p (q # qs) = (if post_id q = post_id p then p # qs else q # save_post p qs)"

definition like_filter :: "target_type \<Rightarrow> oid \<Rightarrow> like \<Rightarrow> bool" where
  "like_filter tt tid l \<longleftrightarrow> like_targetType l = tt \<and> like_targetId l = tid"

definition like_filter_user :: "oid \<Rightarrow> target_type \<Rightarrow> oid \<Rightarrow> like \<Rightarrow> bool" where
  "like_filter_user uid tt tid l \<longleftrightarrow>
     like_user l = uid \<and> like_targetType l = tt \<and> like_targetId l = tid"

text \<open>\<open>Like.countDocuments({targetType, targetId})\<close>\<close>

definition count_likes :: "store \<Rightarrow> target_type \<Rightarrow> oid \<Rightarrow> nat" where
  "count_likes s tt tid = length (filter (like_filter tt tid) (likes s))"

text \<open>\<open>!!(await Like.exists({targetType, targetId, user}))\<close>\<close>

definition user_liked :: "store \<Rightarrow> oid \<Rightarrow> target_type \<Rightarrow> oid \<Rightarrow> bool" where
  "user_liked s uid tt tid = (find (like_filter_user uid tt tid) (likes s) \<noteq> None)"

text \<open>
  \<open>Like.create\<close>: the compound unique index on (user, targetType, targetId) of
  models/Like.js rejects a second like of the same triple; the rejection reaches
  \<open>next(error)\<close>. Otherwise the document is appended with a fresh id and both timestamps
  set to the current time.
\<close>

definition like_create :: "store \<Rightarrow> oid \<Rightarrow> target_type \<Rightarrow> oid \<Rightarrow> time \<Rightarrow> error + store" where
  "like_create s uid tt tid now =
     (if find (like_filter_user uid tt tid) (likes s) \<noteq> None
      then Inl (Unexpected ''E11000 duplicate key error'')
      else Inr (s\<lparr>likes := likes s @
                    [\<lparr>like_id = next_id s, like_user = uid, like_targetType = tt,
                      like_targetId = tid, like_createdAt = now, like_updatedAt = now\<rparr>],
                  next_id := Suc (next_id s)\<rparr>))"

section \<open>Validation (express-validator chains)\<close>

text \<open>
  The whitespace of JavaScript (\<open>\s\<close> in a regular expression, and what
  \<open>String.prototype.trim\<close> strips): TAB, LF, VT, FF, CR, space, no-break space, the other
  space separators of Unicode, the line and paragraph separators and the byte order mark.
\<close>

definition is_space :: "code_unit \<Rightarrow> bool" where
  "is_space c \<longleftrightarrow>
     c \<in> set [0x0009, 0x000A, 0x000B, 0x000C, 0x000D, 0x0020, 0x00A0, 0x1680,
               0x2028, 0x2029, 0x202F, 0x205F, 0x3000, 0xFEFF] \<or>
     (0x2000 \<le> c \<and> c \<le> 0x200A)"

text \<open>The \<open>trim()\<close> sanitizer, and the \<open>trim: true\<close> of the schemas: whitespace is
  stripped from both ends.\<close>

definition trim :: "js_string \<Rightarrow> js_string" where
  "trim s = rev (dropWhile is_space (rev (dropWhile is_space s)))"

text \<open>
  The length that \<open>isLength\<close> of the validation library compares with its bounds: the
  number of code units, less one for every surrogate pair (a high surrogate followed by
  a low one) and for every variation selector U+FE0E or U+FE0F.
\<close>

fun surrogate_pairs :: "js_string \<Rightarrow> nat" where
  "surrogate_pairs (h # l # cs) =
     (if 0xD800 \<le> h \<and> h \<le> 0xDBFF \<and> 0xDC00 \<le> l \<and> l \<le> 0xDFFF
      then Suc (surrogate_pairs cs) else surrogate_pairs (l # cs))"
| "surrogate_pairs cs = 0"

definition presentation_selectors :: "js_string \<Rightarrow> nat" where
  "presentation_selectors s = length (filter (\<lambda>c. c = 0xFE0F \<or> c = 0xFE0E) s)"

definition validator_length :: "js_string \<Rightarrow> nat" where
  "validator_length s = length s - presentation_selectors s - surrogate_pairs s"

text \<open>
  The request body of the post routes. An absent \<open>content\<close> is read by the sanitizer as
  the empty string; \<open>privacy\<close> is optional.
\<close>

record post_body =
  body_content :: js_string
  body_privacy :: "string option"

text \<open>
  \<open>validatePost\<close>: content is trimmed, must not be empty and must not exceed 5000
  characters; privacy, when present, must be "public" or "private". The result is the
  list of \<open>{field, message}\<close> pairs of \<open>validationResult\<close>.
\<close>

definition validatePost :: "post_body \<Rightarrow> (string \<times> string) list" where
  "validatePost b =
     (if trim (body_content b) = [] then [(''content'', ''Post content is required'')] else []) @
     (if validator_length (trim (body_content b)) > 5000
      then [(''content'', ''Post content must not exceed 5000 characters'')] else []) @
     (case body_privacy b of
        None \<Rightarrow> []
      | Some v \<Rightarrow> if v \<in> set [''public'', ''private''] then []
                  else [(''privacy'', ''Privacy must be either public or private'')])"

record comment_body =
  body_text :: js_string
  body_postId :: oid

text \<open>\<open>validateComment\<close>: text is trimmed, not empty, at most 1000 characters.\<close>

definition validateComment :: "js_string \<Rightarrow> (string \<times> string) list" where
  "validateComment t =
     (if trim t = [] then [(''text'', ''Comment text is required'')] else []) @
     (if validator_length (trim t) > 1000
      then [(''text'', ''Comment must not exceed 1000 characters'')] else [])"

section \<open>Schema validation (mongoose)\<close>

text \<open>
  \<open>Model.create\<close> and \<open>doc.save()\<close> validate the document against its schema before
  they write; a failure is thrown and reaches \<open>next(error)\<close>. models/Post.js: content is
  required and has at most 5000 code units (\<open>maxlength\<close> compares the \<open>length\<close> of the
  string), privacy is one of the two enum values. models/Comment.js: text is required and
  has at most 1000 code units.
\<close>

definition post_schema_ok :: "post \<Rightarrow> bool" where
  "post_schema_ok p \<longleftrightarrow>
     post_content p \<noteq> [] \<and> length (post_content p) \<le> 5000 \<and>
     post_privacy p \<in> set [''public'', ''private'']"

definition comment_schema_ok :: "comment \<Rightarrow> bool" where
  "comment_schema_ok c \<longleftrightarrow> comment_text c \<noteq> [] \<and> length (comment_text c) \<le> 1000"

section \<open>Post routes (routes/posts.js)\<close>

text \<open>
  The attached file of a multipart request, as the upload middleware sees it: its MIME
  type, its size, and the \<open>secure_url\<close> the image host answers with (\<open>None\<close> when the
  upload is rejected). The image host is an external service.
\<close>

record upload_file =
  file_mimetype :: string
  file_size :: nat
  file_secure_url :: "string option"

definition populate_post :: "store \<Rightarrow> post \<Rightarrow> populated_post" where
  "populate_post s p = \<lparr>pp_post = p, pp_author = populate_user s (post_author p)\<rparr>"

text \<open>
  \<open>router.post("/")\<close>: the upload middleware runs first (images only, at most 5MB), then
  the validation chain, then the handler: upload of the image, \<open>Post.create\<close>, populate.
  A rejection by the size limit or by the image host reaches \<open>next(error)\<close> with a
  message of the library's; a fixed text stands for it here.
\<close>

definition create_post ::
  "store \<Rightarrow> oid \<Rightarrow> post_body \<Rightarrow> upload_file option \<Rightarrow> time \<Rightarrow> response \<times> store" where
  "create_post s uid b file now =
     (if (case file of None \<Rightarrow> False | Some f \<Rightarrow> take 6 (file_mimetype f) \<noteq> ''image/'')
      then (Inl (Unexpected ''Only image files are allowed''), s)
      else if (case file of None \<Rightarrow> False | Some f \<Rightarrow> file_size f > 5 * 1024 * 1024)
      then (Inl (Unexpected ''File too large''), s)
      else if validatePost b \<noteq> []
      then (Inl (ValidationError (validatePost b)), s)
      else if (case file of None \<Rightarrow> False | Some f \<Rightarrow> file_secure_url f = None)
      then (Inl (Unexpected ''Upload failed''), s)
      else
        let p = \<lparr>post_id = next_id s,
                 post_content = trim (body_content b),
                 post_image = (case file of None \<Rightarrow> None | Some f \<Rightarrow> file_secure_url f),
                 post_privacy = (case body_privacy b of None \<Rightarrow> ''public'' | Some v \<Rightarrow> v),
                 post_author = uid,
                 post_createdAt = now,
                 post_updatedAt = now\<rparr>;
            s' = s\<lparr>posts := posts s @ [p], next_id := Suc (next_id s)\<rparr>
        in if \<not> post_schema_ok p then (Inl (Unexpected ''Post validation failed''), s)
           else (Inr (PostCreated ''Post created successfully'' (populate_post s' p)), s'))"

text \<open>
  The numbers of JavaScript are doubles: an integer is exact, and so is the arithmetic on
  integers, up to \<open>Number.MAX_SAFE_INTEGER\<close>; beyond it values are rounded. The integers
  of the model are exact everywhere, so the model follows the code as long as page, limit
  and skip stay within that range; what the routes do beyond it is not modelled.
\<close>

definition max_safe_integer :: int where
  "max_safe_integer = 2 ^ 53 - 1"

text \<open>\<open>parseInt(q) || d\<close>: an absent or non-numeric parameter is NaN, and NaN and 0 are
  falsy. The argument is the integer that \<open>parseInt\<close> reads, when it reads one.\<close>

definition parse_or :: "int option \<Rightarrow> int \<Rightarrow> int" where
  "parse_or q d = (case q of None \<Rightarrow> d | Some n \<Rightarrow> if n = 0 then d else n)"

text \<open>\<open>{$or: [{privacy: "public"}, {author: req.user._id}]}\<close>\<close>

definition visible_to :: "oid \<Rightarrow> post \<Rightarrow> bool" where
  "visible_to uid p \<longleftrightarrow> post_privacy p = ''public'' \<or> post_author p = uid"

definition feed_query :: "store \<Rightarrow> oid \<Rightarrow> post list" where
  "feed_query s uid = sort_desc post_createdAt (filter (visible_to uid) (posts s))"

definition annotate_post :: "store \<Rightarrow> oid \<Rightarrow> post \<Rightarrow> feed_item" where
  "annotate_post s uid p =
     \<lparr>fi_post = p,
      fi_author = populate_user s (post_author p),
      fi_likeCount = count_likes s TPost (post_id p),
      fi_isLiked = user_liked s uid TPost (post_id p)\<rparr>"

text \<open>
  \<open>router.get("/")\<close>. The database rejects a negative skip (the error reaches
  \<open>next(error)\<close>; a fixed text stands for its message); a negative limit is read by the
  driver as its absolute value. \<open>Math.ceil(total / limit)\<close> is written with integer
  division. Posts with the same creation time come in the order of \<open>sort_desc\<close>; the
  database leaves their order open.
\<close>

definition get_feed :: "store \<Rightarrow> oid \<Rightarrow> int option \<Rightarrow> int option \<Rightarrow> response" where
  "get_feed s uid qpage qlimit =
     (let page = parse_or qpage 1;
          limit = parse_or qlimit 10;
          skip = (page - 1) * limit
      in if skip < 0 then Inl (Unexpected ''skip value must be non-negative'')
         else
           let page_posts = take (nat \<bar>limit\<bar>) (drop (nat skip) (feed_query s uid));
               postsWithLikes = map (annotate_post s uid) page_posts;
               total = length (filter (visible_to uid) (posts s))
           in Inr (Feed postsWithLikes
                    \<lparr>pg_page = page, pg_limit = limit, pg_total = total,
                     pg_pages = - ((- int total) div limit)\<rparr>))"

text \<open>\<open>router.put("/:id")\<close>: validation, lookup, ownership, then the update. \<open>save()\<close>
  writes, and moves \<open>updatedAt\<close>, only when an assignment has changed the document.\<close>

definition update_post ::
  "store \<Rightarrow> oid \<Rightarrow> oid \<Rightarrow> post_body \<Rightarrow> time \<Rightarrow> response \<times> store" where
  "update_post s uid pid b now =
     (if validatePost b \<noteq> [] then (Inl (ValidationError (validatePost b)), s)
      else case find_post s pid of
        None \<Rightarrow> (Inl (NotFound ''Post not found''), s)
      | Some p \<Rightarrow>
          if post_author p \<noteq> uid
          then (Inl (Forbidden ''You are not authorized to update this post''), s)
          else
            let content = trim (body_content b);
                privacy = (case body_privacy b of
                             None \<Rightarrow> post_privacy p
                           | Some v \<Rightarrow> if v = [] then post_privacy p else v);
                modified = (content \<noteq> post_content p \<or> privacy \<noteq> post_privacy p);
                p' = p\<lparr>post_content := content,
                       post_privacy := privacy,
                       post_updatedAt := (if modified then now else post_updatedAt p)\<rparr>;
                s' = s\<lparr>posts := save_post p' (posts s)\<rparr>
            in if \<not> post_schema_ok p' then (Inl (Unexpected ''Post validation failed''), s)
               else (Inr (PostUpdated ''Post updated successfully'' (populate_post s' p')), s'))"

text \<open>\<open>router.delete("/:id")\<close>: lookup, ownership, then the post and the likes on it.\<close>

definition delete_post :: "store \<Rightarrow> oid \<Rightarrow> oid \<Rightarrow> response \<times> store" where
  "delete_post s uid pid =
     (case find_post s pid of
        None \<Rightarrow> (Inl (NotFound ''Post not found''), s)
      | Some p \<Rightarrow>
          if post_author p \<noteq> uid
          then (Inl (Forbidden ''You are not authorized to delete this post''), s)
          else
            let s1 = s\<lparr>posts := delete_by_id post_id pid (posts s)\<rparr>;
                s2 = s1\<lparr>likes := filter (\<lambda>l. \<not> like_filter TPost pid l) (likes s1)\<rparr>
            in (Inr (Deleted ''Post deleted successfully''), s2))"

text \<open>
  The body shared by the two like routes once the target is found: look for the
  requester's like of the target; delete it when there is one, create it otherwise; then
  count the likes of the target again.
\<close>

definition toggle_like ::
  "target_type \<Rightarrow> string \<Rightarrow> string \<Rightarrow> store \<Rightarrow> oid \<Rightarrow> oid \<Rightarrow> time \<Rightarrow> response \<times> store" where
  "toggle_like tt unliked liked s uid tid now =
     (case find (like_filter_user uid tt tid) (likes s) of
        Some existingLike \<Rightarrow>
          let s' = s\<lparr>likes := delete_by_id like_id (like_id existingLike) (likes s)\<rparr>
          in (Inr (LikeToggled unliked False (count_likes s' tt tid)), s')
      | None \<Rightarrow>
          (case like_create s uid tt tid now of
             Inl e \<Rightarrow> (Inl e, s)
           | Inr s' \<Rightarrow> (Inr (LikeToggled liked True (count_likes s' tt tid)), s')))"

text \<open>\<open>router.post("/:id/like")\<close> of routes/posts.js\<close>

definition like_post :: "store \<Rightarrow> oid \<Rightarrow> oid \<Rightarrow> time \<Rightarrow> response \<times> store" where
  "like_post s uid pid now =
     (case find_post s pid of
        None \<Rightarrow> (Inl (NotFound ''Post not found''), s)
      | Some p \<Rightarrow> toggle_like TPost ''Post unliked'' ''Post liked'' s uid pid now)"

definition likers :: "store \<Rightarrow> target_type \<Rightarrow> oid \<Rightarrow> liker list" where
  "likers s tt tid =
     map (\<lambda>l. \<lparr>lk_user = populate_user s (like_user l), lk_likedAt = like_createdAt l\<rparr>)
       (sort_desc like_createdAt (filter (like_filter tt tid) (likes s)))"

text \<open>\<open>router.get("/:id/likes")\<close> of routes/posts.js\<close>

definition post_likes :: "store \<Rightarrow> oid \<Rightarrow> response" where
  "post_likes s pid = Inr (Likers (likers s TPost pid))"

section \<open>Comment routes\<close>

definition populate_comment :: "store \<Rightarrow> comment \<Rightarrow> populated_comment" where
  "populate_comment s c = \<lparr>pc_comment = c, pc_author = populate_user s (comment_author c)\<rparr>"

text \<open>\<open>router.post("/")\<close>: validation, the post must exist, then a comment with
  \<open>parent: null\<close>.\<close>

definition create_comment :: "store \<Rightarrow> oid \<Rightarrow> comment_body \<Rightarrow> time \<Rightarrow> response \<times> store" where
  "create_comment s uid b now =
     (if validateComment (body_text b) \<noteq> []
      then (Inl (ValidationError (validateComment (body_text b))), s)
      else case find_post s (body_postId b) of
        None \<Rightarrow> (Inl (NotFound ''Post not found''), s)
      | Some p \<Rightarrow>
          let c = \<lparr>comment_id = next_id s,
                   comment_text = trim (body_text b),
                   comment_post = body_postId b,
                   comment_author = uid,
                   comment_parent = None,
                   comment_createdAt = now,
                   comment_updatedAt = now\<rparr>;
              s' = s\<lparr>comments := comments s @ [c], next_id := Suc (next_id s)\<rparr>
          in if \<not> comment_schema_ok c
             then (Inl (Unexpected ''Comment validation failed''), s)
             else (Inr (CommentCreated ''Comment created successfully''
                          (populate_comment s' c)), s'))"

definition annotate_reply :: "store \<Rightarrow> oid \<Rightarrow> comment \<Rightarrow> reply_item" where
  "annotate_reply s uid r =
     \<lparr>ri_comment = r,
      ri_author = populate_user s (comment_author r),
      ri_likeCount = count_likes s TComment (comment_id r),
      ri_isLiked = user_liked s uid TComment (comment_id r)\<rparr>"

definition replies_of :: "store \<Rightarrow> oid \<Rightarrow> comment list" where
  "replies_of s cid =
     sort_key comment_createdAt (filter (\<lambda>r. comment_parent r = Some cid) (comments s))"

definition annotate_comment :: "store \<Rightarrow> oid \<Rightarrow> comment \<Rightarrow> comment_item" where
  "annotate_comment s uid c =
     \<lparr>ci_comment = c,
      ci_author = populate_user s (comment_author c),
      ci_likeCount = count_likes s TComment (comment_id c),
      ci_isLiked = user_liked s uid TComment (comment_id c),
      ci_replies = map (annotate_reply s uid) (replies_of s (comment_id c))\<rparr>"

text \<open>\<open>Comment.find({post: postId, parent: null}).sort({createdAt: 1})\<close>\<close>

definition top_level_comments :: "store \<Rightarrow> oid \<Rightarrow> comment list" where
  "top_level_comments s pid =
     sort_key comment_createdAt
       (filter (\<lambda>c. comment_post c = pid \<and> comment_parent c = None) (comments s))"

text \<open>\<open>router.get("/:postId")\<close>: the top-level comments of the post, oldest first, each
  with its replies.\<close>

definition list_comments :: "store \<Rightarrow> oid \<Rightarrow> oid \<Rightarrow> response" where
  "list_comments s uid pid =
     Inr (CommentList (map (annotate_comment s uid) (top_level_comments s pid)))"

text \<open>\<open>router.post("/:id/reply")\<close>: validation, the parent comment must exist, then a
  comment on the parent's post with the given parent.\<close>

definition create_reply ::
  "store \<Rightarrow> oid \<Rightarrow> oid \<Rightarrow> js_string \<Rightarrow> time \<Rightarrow> response \<times> store" where
  "create_reply s uid parentCommentId t now =
     (if validateComment t \<noteq> [] then (Inl (ValidationError (validateComment t)), s)
      else case find_comment s parentCommentId of
        None \<Rightarrow> (Inl (NotFound ''Parent comment not found''), s)
      | Some parentComment \<Rightarrow>
          let r = \<lparr>comment_id = next_id s,
                   comment_text = trim t,
                   comment_post = comment_post parentComment,
                   comment_author = uid,
                   comment_parent = Some parentCommentId,
                   comment_createdAt = now,
                   comment_updatedAt = now\<rparr>;
              s' = s\<lparr>comments := comments s @ [r], next_id := Suc (next_id s)\<rparr>
          in if \<not> comment_schema_ok r
             then (Inl (Unexpected ''Comment validation failed''), s)
             else (Inr (CommentCreated ''Reply created successfully''
                          (populate_comment s' r)), s'))"

text \<open>\<open>router.post("/:id/like")\<close> of the comment routes\<close>

definition like_comment :: "store \<Rightarrow> oid \<Rightarrow> oid \<Rightarrow> time \<Rightarrow> response \<times> store" where
  "like_comment s uid cid now =
     (case find_comment s cid of
        None \<Rightarrow> (Inl (NotFound ''Comment not found''), s)
      | Some c \<Rightarrow> toggle_like TComment ''Comment unliked'' ''Comment liked'' s uid cid now)"

text \<open>\<open>router.get("/:id/likes")\<close> of the comment routes\<close>

definition comment_likes :: "store \<Rightarrow> oid \<Rightarrow> response" where
  "comment_likes s cid = Inr (Likers (likers s TComment cid))"

text \<open>\<open>router.delete("/:id")\<close> of the comment routes: lookup, ownership, then the comment
  with the comments whose parent it is, then the likes on the comment.\<close>

definition delete_comment :: "store \<Rightarrow> oid \<Rightarrow> oid \<Rightarrow> response \<times> store" where
  "delete_comment s uid cid =
     (case find_comment s cid of
        None \<Rightarrow> (Inl (NotFound ''Comment not found''), s)
      | Some c \<Rightarrow>
          if comment_author c \<noteq> uid
          then (Inl (Forbidden ''You are not authorized to delete this comment''), s)
          else
            let s1 = s\<lparr>comments :=
                         filter (\<lambda>d. \<not> (comment_id d = cid \<or> comment_parent d = Some cid))
                           (comments s)\<rparr>;
                s2 = s1\<lparr>likes := filter (\<lambda>l. \<not> like_filter TComment cid l) (likes s1)\<rparr>
            in (Inr (Deleted ''Comment deleted successfully''), s2))"

section \<open>Requests and reachable stores\<close>

text \<open>One constructor per route; the first argument is the authenticated requester.\<close>

datatype request =
    CreatePost oid post_body "upload_file option" time
  | GetFeed oid "int option" "int option"
  | UpdatePost oid oid post_body time
  | DeletePost oid oid
  | LikePost oid oid time
  | PostLikes oid oid
  | CreateComment oid comment_body time
  | ListComments oid oid
  | CreateReply oid oid js_string time
  | LikeComment oid oid time
  | CommentLikes oid oid
  | DeleteComment oid oid

fun handle :: "request \<Rightarrow> store \<Rightarrow> response \<times> store" where
  "handle (CreatePost uid b file now) s = create_post s uid b file now"
| "handle (GetFeed uid qpage qlimit) s = (get_feed s uid qpage qlimit, s)"
| "handle (UpdatePost uid pid b now) s = update_post s uid pid b now"
| "handle (DeletePost uid pid) s = delete_post s uid pid"
| "handle (LikePost uid pid now) s = like_post s uid pid now"
| "handle (PostLikes uid pid) s = (post_likes s pid, s)"
| "handle (CreateComment uid b now) s = create_comment s uid b now"
| "handle (ListComments uid pid) s = (list_comments s uid pid, s)"
| "handle (CreateReply uid cid t now) s = create_reply s uid cid t now"
| "handle (LikeComment uid cid now) s = like_comment s uid cid now"
| "handle (CommentLikes uid cid) s = (comment_likes s cid, s)"
| "handle (DeleteComment uid cid) s = delete_comment s uid cid"

text \<open>The store after a sequence of requests, served one after the other.\<close>

fun run :: "request list \<Rightarrow> store \<Rightarrow> store" where
  "run [] s = s"
| "run (r # rs) s = run rs (snd (handle r s))"

text \<open>A store is reachable when some sequence of requests leads to it from a database
  that holds users only.\<close>

inductive reachable :: "store \<Rightarrow> bool" where
  reachable_init: "reachable (init_store us)"
| reachable_step: "reachable s \<Longrightarrow> reachable (snd (handle r s))"

section \<open>Store invariants\<close>

definition like_key :: "like \<Rightarrow> oid \<times> target_type \<times> oid" where
  "like_key l = (like_user l, like_targetType l, like_targetId l)"

text \<open>At most one like per (user, targetType, targetId).\<close>

definition likes_unique :: "store \<Rightarrow> bool" where
  "likes_unique s \<longleftrightarrow> distinct (map like_key (likes s))"

text \<open>Ids are unique within a collection, and below the next id to be handed out.\<close>

definition ids_ok :: "store \<Rightarrow> bool" where
  "ids_ok s \<longleftrightarrow>
     distinct (map post_id (posts s)) \<and> list_all (\<lambda>p. post_id p < next_id s) (posts s) \<and>
     distinct (map comment_id (comments s)) \<and>
     list_all (\<lambda>c. comment_id c < next_id s) (comments s) \<and>
     distinct (map like_id (likes s)) \<and> list_all (\<lambda>l. like_id l < next_id s) (likes s)"

text \<open>No comment has a reply as its parent: every parent that resolves is top-level.\<close>

definition nesting_ok :: "store \<Rightarrow> bool" where
  "nesting_ok s \<longleftrightarrow>
     list_all (\<lambda>c. case comment_parent c of
                     None \<Rightarrow> True
                   | Some pid \<Rightarrow> (case find_comment s pid of
                                    None \<Rightarrow> True
                                  | Some p \<Rightarrow> comment_parent p = None))
       (comments s)"

section \<open>Reading a response\<close>

text \<open>The posts of a feed response, in the order of the response (none on an error).\<close>

definition feed_posts :: "response \<Rightarrow> post list" where
  "feed_posts r = (case r of Inr (Feed items pg) \<Rightarrow> map fi_post items | _ \<Rightarrow> [])"

text \<open>The top-level comments of a comment listing, in the order of the response.\<close>

definition listed_comments :: "response \<Rightarrow> comment list" where
  "listed_comments r = (case r of Inr (CommentList items) \<Rightarrow> map ci_comment items | _ \<Rightarrow> [])"

section \<open>Example stores\<close>

text \<open>Small stores built by serving requests from the empty database; the documents get
  the ids 0, 1, 2, ... in the order of their creation.\<close>

definition hello_body :: post_body where
  "hello_body = \<lparr>body_content = utf16 ''hello'', body_privacy = None\<rparr>"

text \<open>A content of a space and a no-break space.\<close>

definition empty_body :: post_body where
  "empty_body = \<lparr>body_content = [0x0020, 0x00A0], body_privacy = None\<rparr>"

text \<open>User 1 publishes post 0.\<close>

definition store_one_post :: store where
  "store_one_post = run [CreatePost 1 hello_body None 10] (init_store [])"

text \<open>User 1 publishes post 0 and comments it (comment 1); user 2 replies (comment 2).\<close>

definition store_thread :: store where
  "store_thread =
     run [CreateComment 1 \<lparr>body_text = utf16 ''first'', body_postId = 0\<rparr> 20,
          CreateReply 2 1 (utf16 ''second'') 30] store_one_post"

text \<open>The thread, with post 0, comment 1 and reply 2 each liked by user 3
  (likes 3, 4 and 5).\<close>

definition store_thread_liked :: store where
  "store_thread_liked =
     run [LikePost 3 0 40, LikeComment 3 1 50, LikeComment 3 2 60] store_thread"

text \<open>Twenty-five public posts of user 1, with the ids and the creation times 0 to 24.\<close>

definition store_25_posts :: store where
  "store_25_posts =
     \<lparr>users = [],
      posts = map (\<lambda>i. \<lparr>post_id = i, post_content = utf16 ''hello'', post_image = None,
                         post_privacy = ''public'', post_author = 1, post_createdAt = i,
                         post_updatedAt = i\<rparr>) [0..<25],
      comments = [], likes = [], next_id = 25\<rparr>"

text \<open>User 1 publishes post 0, user 2 a private post 1, user 1 a private post 2.\<close>

definition private_body :: post_body where
  "private_body = \<lparr>body_content = utf16 ''secret'', body_privacy = Some ''private''\<rparr>"

definition store_mixed :: store where
  "store_mixed =
     run [CreatePost 1 hello_body None 10, CreatePost 2 private_body None 20,
          CreatePost 1 private_body None 30] (init_store [])"

section \<open>Helper lemmas\<close>

lemma delete_by_id_subset: "set (delete_by_id f i xs) \<subseteq> set xs"
  by (induction xs) auto

lemma delete_by_id_distinct_map:
  "distinct (map g xs) \<Longrightarrow> distinct (map g (delete_by_id f i xs))"
proof (induction xs)
  case Nil
  then show ?case by simp
next
  case (Cons x xs)
  have "g x \<notin> g ` set (delete_by_id f i xs)"
    using Cons.prems delete_by_id_subset [of f i xs] by auto
  with Cons show ?case by simp
qed

lemma delete_by_id_list_all:
  "list_all P xs \<Longrightarrow> list_all P (delete_by_id f i xs)"
  by (induction xs) auto

lemma delete_by_id_snoc:
  "\<forall>y\<in>set xs. f y \<noteq> i \<Longrightarrow> f x = i \<Longrightarrow> delete_by_id f i (xs @ [x]) = xs"
  by (induction xs) auto

lemma delete_by_id_filter:
  "distinct (map f xs) \<Longrightarrow> delete_by_id f i xs = filter (\<lambda>x. f x \<noteq> i) xs"
proof (induction xs)
  case Nil
  then show ?case by simp
next
  case (Cons x xs)
  show ?case
  proof (cases "f x = i")
    case True
    from Cons.prems have "f x \<notin> f ` set xs" by simp
    then have "\<forall>y\<in>set xs. f y \<noteq> f x" by (metis imageI)
    with True have "\<forall>y\<in>set xs. f y \<noteq> i" by simp
    then have "filter (\<lambda>x. f x \<noteq> i) xs = xs" by (simp add: filter_id_conv)
    with True show ?thesis by simp
  next
    case False
    with Cons show ?thesis by simp
  qed
qed

lemma save_post_ids: "map post_id (save_post p qs) = map post_id qs"
  by (induction qs) auto

lemma save_post_list_all:
  "list_all P qs \<Longrightarrow> P p \<Longrightarrow> list_all P (save_post p qs)"
  by (induction qs) auto

lemma toggle_like_likes_unique:
  "likes_unique s \<Longrightarrow> likes_unique (snd (toggle_like tt m1 m2 s uid tid now))"
proof (cases "find (like_filter_user uid tt tid) (likes s)")
  case None
  then have "\<forall>l\<in>set (likes s). like_key l \<noteq> (uid, tt, tid)"
    by (auto simp: find_None_iff like_filter_user_def like_key_def)
  moreover assume "likes_unique s"
  ultimately show ?thesis using None
    by (auto simp: toggle_like_def like_create_def likes_unique_def like_key_def)
next
  case (Some l)
  assume "likes_unique s"
  then show ?thesis using Some
    by (simp add: toggle_like_def likes_unique_def Let_def delete_by_id_distinct_map)
qed

lemma handle_likes_unique:
  "likes_unique s \<Longrightarrow> likes_unique (snd (handle r s))"
proof (cases r)
  case (LikePost uid pid now)
  assume "likes_unique s"
  then show ?thesis using LikePost toggle_like_likes_unique
    by (simp add: like_post_def split: option.splits)
next
  case (LikeComment uid cid now)
  assume "likes_unique s"
  then show ?thesis using LikeComment toggle_like_likes_unique
    by (simp add: like_comment_def split: option.splits)
next
  case (DeletePost uid pid)
  assume "likes_unique s"
  then show ?thesis using DeletePost
    by (auto simp: delete_post_def likes_unique_def Let_def distinct_map_filter split: option.splits)
next
  case (DeleteComment uid cid)
  assume "likes_unique s"
  then show ?thesis using DeleteComment
    by (auto simp: delete_comment_def likes_unique_def Let_def distinct_map_filter split: option.splits)
qed (auto simp: create_post_def update_post_def create_comment_def create_reply_def
      likes_unique_def Let_def split: option.splits)

lemma reachable_likes_unique: "reachable s \<Longrightarrow> likes_unique s"
proof (induction rule: reachable.induct)
  case (reachable_init us)
  show ?case by (simp add: init_store_def likes_unique_def)
next
  case (reachable_step s r)
  from reachable_step.IH show ?case by (rule handle_likes_unique)
qed

lemma list_all_less_Suc:
  "list_all (\<lambda>x. f x < (n::nat)) xs \<Longrightarrow> list_all (\<lambda>x. f x < Suc n) xs"
  by (induction xs) auto

lemma fresh_not_in_ids:
  "list_all (\<lambda>x. f x < (n::nat)) xs \<Longrightarrow> n \<notin> f ` set xs"
  by (auto simp: list_all_iff)

lemma toggle_like_ids_ok:
  assumes "ids_ok s"
  shows "ids_ok (snd (toggle_like tt m1 m2 s uid tid now))"
proof (cases "find (like_filter_user uid tt tid) (likes s)")
  case None
  with assms show ?thesis
    by (simp add: toggle_like_def like_create_def ids_ok_def list_all_less_Suc fresh_not_in_ids)
next
  case (Some l)
  with assms show ?thesis
    by (simp add: toggle_like_def ids_ok_def Let_def delete_by_id_distinct_map
          delete_by_id_list_all)
qed

lemma create_post_ids_ok:
  "ids_ok s \<Longrightarrow> ids_ok (snd (create_post s uid b file now))"
  by (simp add: create_post_def ids_ok_def Let_def list_all_less_Suc fresh_not_in_ids)

lemma update_post_ids_ok:
  assumes "ids_ok s"
  shows "ids_ok (snd (update_post s uid pid b now))"
proof (cases "find_post s pid")
  case None
  with assms show ?thesis by (simp add: update_post_def)
next
  case (Some p)
  then have "p \<in> set (posts s)"
    by (auto simp: find_post_def find_Some_iff)
  with assms have "post_id p < next_id s"
    by (simp add: ids_ok_def list_all_iff)
  with assms Some show ?thesis
    by (simp add: update_post_def ids_ok_def Let_def save_post_ids save_post_list_all)
qed

lemma list_all_filter_keep: "list_all P xs \<Longrightarrow> list_all P (filter Q xs)"
  by (simp add: list_all_iff)

lemma delete_post_ids_ok:
  "ids_ok s \<Longrightarrow> ids_ok (snd (delete_post s uid pid))"
  by (simp add: delete_post_def ids_ok_def Let_def delete_by_id_distinct_map
        delete_by_id_list_all distinct_map_filter list_all_filter_keep split: option.splits)

lemma create_comment_ids_ok:
  "ids_ok s \<Longrightarrow> ids_ok (snd (create_comment s uid b now))"
  by (simp add: create_comment_def ids_ok_def Let_def list_all_less_Suc fresh_not_in_ids
        split: option.splits)

lemma create_reply_ids_ok:
  "ids_ok s \<Longrightarrow> ids_ok (snd (create_reply s uid cid t now))"
  by (simp add: create_reply_def ids_ok_def Let_def list_all_less_Suc fresh_not_in_ids
        split: option.splits)

lemma delete_comment_ids_ok:
  "ids_ok s \<Longrightarrow> ids_ok (snd (delete_comment s uid cid))"
  by (simp add: delete_comment_def ids_ok_def Let_def distinct_map_filter
        list_all_filter_keep split: option.splits)

lemma handle_ids_ok: "ids_ok s \<Longrightarrow> ids_ok (snd (handle r s))"
proof (cases r)
  case (LikePost uid pid now)
  assume "ids_ok s"
  then show ?thesis using LikePost toggle_like_ids_ok
    by (simp add: like_post_def split: option.splits)
next
  case (LikeComment uid cid now)
  assume "ids_ok s"
  then show ?thesis using LikeComment toggle_like_ids_ok
    by (simp add: like_comment_def split: option.splits)
qed (simp_all add: create_post_ids_ok update_post_ids_ok delete_post_ids_ok
      create_comment_ids_ok create_reply_ids_ok delete_comment_ids_ok)

lemma reachable_ids_ok: "reachable s \<Longrightarrow> ids_ok s"
proof (induction rule: reachable.induct)
  case (reachable_init us)
  show ?case by (simp add: init_store_def ids_ok_def)
next
  case (reachable_step s r)
  from reachable_step.IH show ?case by (rule handle_ids_ok)
qed

lemma run_reachable: "reachable s \<Longrightarrow> reachable (run rs s)"
  by (induction rs arbitrary: s) (auto intro: reachable_step)

lemma store_one_post_eval:
  "store_one_post =
     \<lparr>users = [],
      posts = [\<lparr>post_id = 0, post_content = utf16 ''hello'', post_image = None,
                post_privacy = ''public'', post_author = 1, post_createdAt = 10,
                post_updatedAt = 10\<rparr>],
      comments = [], likes = [], next_id = 1\<rparr>"
  by code_simp

lemma store_thread_eval:
  "store_thread =
     \<lparr>users = [],
      posts = [\<lparr>post_id = 0, post_content = utf16 ''hello'', post_image = None,
                post_privacy = ''public'', post_author = 1, post_createdAt = 10,
                post_updatedAt = 10\<rparr>],
      comments =
        [\<lparr>comment_id = 1, comment_text = utf16 ''first'', comment_post = 0,
           comment_author = 1, comment_parent = None, comment_createdAt = 20,
           comment_updatedAt = 20\<rparr>,
         \<lparr>comment_id = 2, comment_text = utf16 ''second'', comment_post = 0,
           comment_author = 2, comment_parent = Some 1, comment_createdAt = 30,
           comment_updatedAt = 30\<rparr>],
      likes = [], next_id = 3\<rparr>"
  by code_simp

lemma validatePost_hello: "validatePost hello_body = []"
  by code_simp

lemma validatePost_empty:
  "validatePost empty_body = [(''content'', ''Post content is required'')]"
  by code_simp

lemma store_thread_reachable: "reachable store_thread"
  unfolding store_thread_def store_one_post_def
  by (intro run_reachable reachable_init)

lemma deep_reply_eval:
  "status (fst (create_reply store_thread 1 2 (utf16 ''third'') 40)) = 201 \<and>
   map comment_id (comments (snd (create_reply store_thread 1 2 (utf16 ''third'') 40))) = [1, 2, 3] \<and>
   map comment_parent (comments (snd (create_reply store_thread 1 2 (utf16 ''third'') 40))) =
     [None, Some 1, Some 2] \<and>
   \<not> nesting_ok (snd (create_reply store_thread 1 2 (utf16 ''third'') 40))"
  by code_simp

lemma deep_reply_reachable: "reachable (snd (create_reply store_thread 1 2 (utf16 ''third'') 40))"
  using reachable_step [OF store_thread_reachable, of "CreateReply 1 2 (utf16 ''third'') 40"]
  by simp

section \<open>Replies\<close>

text \<open>
  Against C2: in the thread (post 0, comment 1, reply 2 to comment 1) user 1 replies to
  reply 2. The request succeeds with status 201, and the store reached holds comment 3,
  whose parent is the reply 2.
\<close>

theorem reply_to_reply_counterexample:
  "reachable (snd (create_reply store_thread 1 2 (utf16 ''third'') 40)) \<and>
   status (fst (create_reply store_thread 1 2 (utf16 ''third'') 40)) = 201 \<and>
   map comment_id (comments (snd (create_reply store_thread 1 2 (utf16 ''third'') 40))) = [1, 2, 3] \<and>
   map comment_parent (comments (snd (create_reply store_thread 1 2 (utf16 ''third'') 40))) =
     [None, Some 1, Some 2] \<and>
   \<not> nesting_ok (snd (create_reply store_thread 1 2 (utf16 ''third'') 40))"
  using deep_reply_eval deep_reply_reachable by simp

text \<open>
  C2, amended: for every successful reply creation, the parent of the new comment is a
  stored comment, top-level or itself a reply, and the new comment is appended with the
  post of that parent. The route does not look at the parent's own parent, so a reachable
  store may hold a comment whose parent is a reply.
\<close>

theorem reply_parent_exists:
  assumes "fst (create_reply s uid parentCommentId t now) = Inr r"
  shows "(\<exists>p. find_comment s parentCommentId = Some p \<and>
              comments (snd (create_reply s uid parentCommentId t now)) =
                comments s @
                  [\<lparr>comment_id = next_id s, comment_text = trim t,
                    comment_post = comment_post p, comment_author = uid,
                    comment_parent = Some parentCommentId,
                    comment_createdAt = now, comment_updatedAt = now\<rparr>]) \<and>
         (\<exists>s'. reachable s' \<and> \<not> nesting_ok s')"
proof
  show "\<exists>s'. reachable s' \<and> \<not> nesting_ok s'"
    using deep_reply_eval deep_reply_reachable by blast
next
  from assms show "\<exists>p. find_comment s parentCommentId = Some p \<and>
              comments (snd (create_reply s uid parentCommentId t now)) =
                comments s @
                  [\<lparr>comment_id = next_id s, comment_text = trim t,
                    comment_post = comment_post p, comment_author = uid,
                    comment_parent = Some parentCommentId,
                    comment_createdAt = now, comment_updatedAt = now\<rparr>]"
    by (auto simp: create_reply_def Let_def split: if_splits option.splits)
qed

text \<open>The amended C2 at the thread: the reply to reply 2 finds its parent and is
  appended.\<close>

theorem reply_parent_exists_witness:
  "find_comment store_thread 2 \<noteq> None \<and>
   map comment_parent (comments (snd (create_reply store_thread 1 2 (utf16 ''third'') 40))) =
     map comment_parent (comments store_thread) @ [Some 2]"
proof -
  have "fst (create_reply store_thread 1 2 (utf16 ''third'') 40) =
          Inr (CommentCreated ''Reply created successfully''
                \<lparr>pc_comment =
                   \<lparr>comment_id = 3, comment_text = utf16 ''third'', comment_post = 0,
                     comment_author = 1, comment_parent = Some 2,
                     comment_createdAt = 40, comment_updatedAt = 40\<rparr>,
                 pc_author = None\<rparr>)"
    by code_simp
  from reply_parent_exists [OF this] show ?thesis by auto
qed

section \<open>Ownership\<close>

text \<open>
  Against C3: post 0 is by user 1. User 2 sends an update whose content is blank: the
  validation chain answers 400 before the post is looked up, so the answer is not 403.
\<close>

theorem non_author_update_invalid_payload_counterexample:
  "map post_author (posts store_one_post) = [1] \<and>
   map post_id (posts store_one_post) = [0] \<and>
   update_post store_one_post 2 0 empty_body 50 =
     (Inl (ValidationError [(''content'', ''Post content is required'')]), store_one_post) \<and>
   status (fst (update_post store_one_post 2 0 empty_body 50)) = 400"
  by code_simp

text \<open>
  C3, amended: a delete request on an existing post or comment by a requester who is not
  its author fails with Forbidden (403). An update request on an existing post by a
  requester who is not its author fails with Forbidden (403) when the payload passes
  validation, and with the validation errors (400) when it does not. In every one of
  these cases the store is unchanged.
\<close>

theorem non_author_mutation_rejected:
  "(find_post s pid = Some p \<and> post_author p \<noteq> uid \<longrightarrow>
      delete_post s uid pid =
        (Inl (Forbidden ''You are not authorized to delete this post''), s) \<and>
      status (fst (delete_post s uid pid)) = 403 \<and>
      update_post s uid pid b now =
        (if validatePost b = []
         then Inl (Forbidden ''You are not authorized to update this post'')
         else Inl (ValidationError (validatePost b)), s) \<and>
      status (fst (update_post s uid pid b now)) = (if validatePost b = [] then 403 else 400)) \<and>
   (find_comment s cid = Some c \<and> comment_author c \<noteq> uid \<longrightarrow>
      delete_comment s uid cid =
        (Inl (Forbidden ''You are not authorized to delete this comment''), s) \<and>
      status (fst (delete_comment s uid cid)) = 403)"
  by (simp add: delete_post_def delete_comment_def update_post_def)

text \<open>The amended C3 at the thread (post 0 and comment 1 are by user 1), for user 2,
  with a valid and with a blank payload.\<close>

theorem non_author_mutation_rejected_witness:
  "delete_post store_thread 2 0 =
     (Inl (Forbidden ''You are not authorized to delete this post''), store_thread) \<and>
   delete_comment store_thread 2 1 =
     (Inl (Forbidden ''You are not authorized to delete this comment''), store_thread) \<and>
   update_post store_thread 2 0 hello_body 50 =
     (Inl (Forbidden ''You are not authorized to update this post''), store_thread) \<and>
   update_post store_thread 2 0 empty_body 50 =
     (Inl (ValidationError [(''content'', ''Post content is required'')]), store_thread)"
proof -
  let ?p = "\<lparr>post_id = 0, post_content = utf16 ''hello'', post_image = None,
             post_privacy = ''public'', post_author = 1, post_createdAt = 10,
             post_updatedAt = 10\<rparr>"
  let ?c = "\<lparr>comment_id = 1, comment_text = utf16 ''first'', comment_post = 0,
             comment_author = 1, comment_parent = None, comment_createdAt = 20,
             comment_updatedAt = 20\<rparr>"
  have p: "find_post store_thread 0 = Some ?p \<and> post_author ?p \<noteq> 2"
    by (simp add: store_thread_eval find_post_def)
  have c: "find_comment store_thread 1 = Some ?c \<and> comment_author ?c \<noteq> 2"
    by (simp add: store_thread_eval find_comment_def)
  note t1 = non_author_mutation_rejected [of store_thread 0 ?p 2 hello_body 50 1 ?c]
  note t2 = non_author_mutation_rejected [of store_thread 0 ?p 2 empty_body 50 1 ?c]
  from t1 p have "delete_post store_thread 2 0 =
     (Inl (Forbidden ''You are not authorized to delete this post''), store_thread)"
    by blast
  moreover from t1 c have "delete_comment store_thread 2 1 =
     (Inl (Forbidden ''You are not authorized to delete this comment''), store_thread)"
    by blast
  moreover from t1 p have "update_post store_thread 2 0 hello_body 50 =
        (if validatePost hello_body = []
         then Inl (Forbidden ''You are not authorized to update this post'')
         else Inl (ValidationError (validatePost hello_body)), store_thread)"
    by blast
  moreover from t2 p have "update_post store_thread 2 0 empty_body 50 =
        (if validatePost empty_body = []
         then Inl (Forbidden ''You are not authorized to update this post'')
         else Inl (ValidationError (validatePost empty_body)), store_thread)"
    by blast
  ultimately show ?thesis
    by (simp add: validatePost_hello validatePost_empty)
qed

section \<open>Uniqueness of likes\<close>

lemma store_thread_liked_eval:
  "store_thread_liked =
     \<lparr>users = [],
      posts = [\<lparr>post_id = 0, post_content = utf16 ''hello'', post_image = None,
                post_privacy = ''public'', post_author = 1, post_createdAt = 10,
                post_updatedAt = 10\<rparr>],
      comments =
        [\<lparr>comment_id = 1, comment_text = utf16 ''first'', comment_post = 0,
           comment_author = 1, comment_parent = None, comment_createdAt = 20,
           comment_updatedAt = 20\<rparr>,
         \<lparr>comment_id = 2, comment_text = utf16 ''second'', comment_post = 0,
           comment_author = 2, comment_parent = Some 1, comment_createdAt = 30,
           comment_updatedAt = 30\<rparr>],
      likes =
        [\<lparr>like_id = 3, like_user = 3, like_targetType = TPost, like_targetId = 0,
           like_createdAt = 40, like_updatedAt = 40\<rparr>,
         \<lparr>like_id = 4, like_user = 3, like_targetType = TComment, like_targetId = 1,
           like_createdAt = 50, like_updatedAt = 50\<rparr>,
         \<lparr>like_id = 5, like_user = 3, like_targetType = TComment, like_targetId = 2,
           like_createdAt = 60, like_updatedAt = 60\<rparr>],
      next_id = 6\<rparr>"
  by code_simp

lemma store_thread_liked_reachable: "reachable store_thread_liked"
  unfolding store_thread_liked_def
  by (intro run_reachable store_thread_reachable)

lemma distinct_map_count_le_1:
  "distinct (map f xs) \<Longrightarrow> length (filter (\<lambda>x. f x = k) xs) \<le> 1"
proof (induction xs)
  case Nil
  then show ?case by simp
next
  case (Cons x xs)
  show ?case
  proof (cases "f x = k")
    case True
    with Cons.prems have "k \<notin> f ` set xs" by auto
    then have "filter (\<lambda>x. f x = k) xs = []"
      by (auto simp: filter_empty_conv)
    with True show ?thesis by simp
  next
    case False
    with Cons show ?thesis by simp
  qed
qed

lemma like_filter_user_key: "like_filter_user uid tt tid = (\<lambda>l. like_key l = (uid, tt, tid))"
  by (auto simp: like_filter_user_def like_key_def fun_eq_iff)

text \<open>
  C9: in every reachable store there is at most one like per (user, targetType,
  targetId), and every request (like toggles on posts and comments, deletions,
  creations, updates and the read-only routes) preserves this from any store that has it.
\<close>

theorem like_triple_unique:
  "(reachable s \<longrightarrow>
      likes_unique s \<and> length (filter (like_filter_user uid tt tid) (likes s)) \<le> 1) \<and>
   (likes_unique s \<longrightarrow> likes_unique (snd (handle r s)))"
proof (intro conjI impI)
  assume "reachable s"
  then show "likes_unique s" by (rule reachable_likes_unique)
  then show "length (filter (like_filter_user uid tt tid) (likes s)) \<le> 1"
    unfolding like_filter_user_key likes_unique_def by (rule distinct_map_count_le_1)
next
  assume "likes_unique s"
  then show "likes_unique (snd (handle r s))" by (rule handle_likes_unique)
qed

text \<open>C9 at the liked thread, which is reachable: user 3 has exactly one like on post 0,
  and a further like request of user 4 on comment 1 keeps the likes unique.\<close>

theorem like_triple_unique_witness:
  "reachable store_thread_liked \<and>
   likes_unique store_thread_liked \<and>
   length (filter (like_filter_user 3 TPost 0) (likes store_thread_liked)) = 1 \<and>
   likes_unique (snd (handle (LikeComment 4 1 70) store_thread_liked))"
proof -
  note t = like_triple_unique [of store_thread_liked 3 TPost 0 "LikeComment 4 1 70"]
  have r: "reachable store_thread_liked" by (rule store_thread_liked_reachable)
  with t have u: "likes_unique store_thread_liked" by blast
  with t have "likes_unique (snd (handle (LikeComment 4 1 70) store_thread_liked))" by blast
  moreover have "length (filter (like_filter_user 3 TPost 0) (likes store_thread_liked)) = 1"
    by (simp add: store_thread_liked_eval like_filter_user_def)
  ultimately show ?thesis using r u by simp
qed

section \<open>Toggling a like twice\<close>

lemma count_likes_likes_update:
  "count_likes (s\<lparr>likes := ls, next_id := n\<rparr>) tt tid = length (filter (like_filter tt tid) ls)"
  by (simp add: count_likes_def)

lemma find_snoc: "\<forall>x\<in>set xs. \<not> P x \<Longrightarrow> P y \<Longrightarrow> find P (xs @ [y]) = Some y"
  by (induction xs) auto

text \<open>Liking: no like of the requester on the target yet.\<close>

lemma toggle_like_on:
  assumes "find (like_filter_user uid tt tid) (likes s) = None"
  shows "toggle_like tt m1 m2 s uid tid now =
           (Inr (LikeToggled m2 True (Suc (count_likes s tt tid))),
            s\<lparr>likes := likes s @
                  [\<lparr>like_id = next_id s, like_user = uid, like_targetType = tt,
                    like_targetId = tid, like_createdAt = now, like_updatedAt = now\<rparr>],
              next_id := Suc (next_id s)\<rparr>)"
  using assms
  by (simp add: toggle_like_def like_create_def count_likes_def like_filter_def)

text \<open>Unliking right after: the like found is the one just appended.\<close>

lemma toggle_like_off_after_on:
  assumes none: "find (like_filter_user uid tt tid) (likes s) = None"
    and fresh: "list_all (\<lambda>l. like_id l < next_id s) (likes s)"
  shows "toggle_like tt m1 m2
           (s\<lparr>likes := likes s @
                  [\<lparr>like_id = next_id s, like_user = uid, like_targetType = tt,
                    like_targetId = tid, like_createdAt = now, like_updatedAt = now\<rparr>],
              next_id := Suc (next_id s)\<rparr>) uid tid now' =
           (Inr (LikeToggled m1 False (count_likes s tt tid)), s\<lparr>next_id := Suc (next_id s)\<rparr>)"
proof -
  let ?new = "\<lparr>like_id = next_id s, like_user = uid, like_targetType = tt,
               like_targetId = tid, like_createdAt = now, like_updatedAt = now\<rparr>"
  from none have no: "\<forall>l\<in>set (likes s). \<not> like_filter_user uid tt tid l"
    by (simp add: find_None_iff)
  have found: "find (like_filter_user uid tt tid) (likes s @ [?new]) = Some ?new"
    using no by (rule find_snoc) (simp add: like_filter_user_def)
  from fresh have "\<forall>l\<in>set (likes s). like_id l \<noteq> next_id s"
    by (auto simp: list_all_iff)
  then have del: "delete_by_id like_id (next_id s) (likes s @ [?new]) = likes s"
    by (rule delete_by_id_snoc) simp
  show ?thesis
    by (simp add: toggle_like_def found del Let_def count_likes_def)
qed

lemma user_liked_find:
  "\<not> user_liked s uid tt tid \<Longrightarrow> find (like_filter_user uid tt tid) (likes s) = None"
  by (simp add: user_liked_def)

lemma ids_ok_likes_fresh: "ids_ok s \<Longrightarrow> list_all (\<lambda>l. like_id l < next_id s) (likes s)"
  by (simp add: ids_ok_def)

lemma find_post_in: "pid \<in> post_id ` set (posts s) \<Longrightarrow> \<exists>p. find_post s pid = Some p"
  by (cases "find_post s pid") (auto simp: find_post_def find_None_iff)

lemma find_comment_in:
  "cid \<in> comment_id ` set (comments s) \<Longrightarrow> \<exists>c. find_comment s cid = Some c"
  by (cases "find_comment s cid") (auto simp: find_comment_def find_None_iff)

lemma find_post_next_id [simp]: "find_post (s\<lparr>next_id := n\<rparr>) pid = find_post s pid"
  by (simp add: find_post_def)

lemma find_post_likes [simp]: "find_post (s\<lparr>likes := ls\<rparr>) pid = find_post s pid"
  by (simp add: find_post_def)

lemma find_comment_next_id [simp]: "find_comment (s\<lparr>next_id := n\<rparr>) cid = find_comment s cid"
  by (simp add: find_comment_def)

lemma find_comment_likes [simp]: "find_comment (s\<lparr>likes := ls\<rparr>) cid = find_comment s cid"
  by (simp add: find_comment_def)

lemma like_post_twice:
  assumes "ids_ok s" and "pid \<in> post_id ` set (posts s)" and "\<not> user_liked s uid TPost pid"
  shows "like_post s uid pid now =
           (Inr (LikeToggled ''Post liked'' True (Suc (count_likes s TPost pid))),
            s\<lparr>likes := likes s @
                  [\<lparr>like_id = next_id s, like_user = uid, like_targetType = TPost,
                    like_targetId = pid, like_createdAt = now, like_updatedAt = now\<rparr>],
              next_id := Suc (next_id s)\<rparr>)"
    and "like_post (snd (like_post s uid pid now)) uid pid now' =
           (Inr (LikeToggled ''Post unliked'' False (count_likes s TPost pid)),
            s\<lparr>next_id := Suc (next_id s)\<rparr>)"
proof -
  from assms(2) obtain p where p: "find_post s pid = Some p"
    using find_post_in by blast
  note none = user_liked_find [OF assms(3)]
  show 1: "like_post s uid pid now =
           (Inr (LikeToggled ''Post liked'' True (Suc (count_likes s TPost pid))),
            s\<lparr>likes := likes s @
                  [\<lparr>like_id = next_id s, like_user = uid, like_targetType = TPost,
                    like_targetId = pid, like_createdAt = now, like_updatedAt = now\<rparr>],
              next_id := Suc (next_id s)\<rparr>)"
    by (simp add: like_post_def p toggle_like_on [OF none])
  show "like_post (snd (like_post s uid pid now)) uid pid now' =
           (Inr (LikeToggled ''Post unliked'' False (count_likes s TPost pid)),
            s\<lparr>next_id := Suc (next_id s)\<rparr>)"
    unfolding 1 snd_conv
    by (simp add: like_post_def p
          toggle_like_off_after_on [OF none ids_ok_likes_fresh [OF assms(1)]])
qed

lemma like_comment_twice:
  assumes "ids_ok s" and "cid \<in> comment_id ` set (comments s)"
    and "\<not> user_liked s uid TComment cid"
  shows "like_comment s uid cid now =
           (Inr (LikeToggled ''Comment liked'' True (Suc (count_likes s TComment cid))),
            s\<lparr>likes := likes s @
                  [\<lparr>like_id = next_id s, like_user = uid, like_targetType = TComment,
                    like_targetId = cid, like_createdAt = now, like_updatedAt = now\<rparr>],
              next_id := Suc (next_id s)\<rparr>)"
    and "like_comment (snd (like_comment s uid cid now)) uid cid now' =
           (Inr (LikeToggled ''Comment unliked'' False (count_likes s TComment cid)),
            s\<lparr>next_id := Suc (next_id s)\<rparr>)"
proof -
  from assms(2) obtain c where c: "find_comment s cid = Some c"
    using find_comment_in by blast
  note none = user_liked_find [OF assms(3)]
  show 1: "like_comment s uid cid now =
           (Inr (LikeToggled ''Comment liked'' True (Suc (count_likes s TComment cid))),
            s\<lparr>likes := likes s @
                  [\<lparr>like_id = next_id s, like_user = uid, like_targetType = TComment,
                    like_targetId = cid, like_createdAt = now, like_updatedAt = now\<rparr>],
              next_id := Suc (next_id s)\<rparr>)"
    by (simp add: like_comment_def c toggle_like_on [OF none])
  show "like_comment (snd (like_comment s uid cid now)) uid cid now' =
           (Inr (LikeToggled ''Comment unliked'' False (count_likes s TComment cid)),
            s\<lparr>next_id := Suc (next_id s)\<rparr>)"
    unfolding 1 snd_conv
    by (simp add: like_comment_def c
          toggle_like_off_after_on [OF none ids_ok_likes_fresh [OF assms(1)]])
qed

lemma store_thread_ids_ok: "ids_ok store_thread"
  by (rule reachable_ids_ok [OF store_thread_reachable])

text \<open>
  Against C4 as stated for every target and every store: user 3 has no like on post 9,
  which no stored post has as its id. The like request is answered 404 instead of
  \<open>isLiked = true\<close> with a count of 1, and no like is stored.
\<close>

theorem like_toggle_missing_target_not_liked_counterexample:
  "\<not> user_liked store_thread 3 TPost 9 \<and>
   count_likes store_thread TPost 9 = 0 \<and>
   fst (like_post store_thread 3 9 100) = Inl (NotFound ''Post not found'') \<and>
   fst (like_post store_thread 3 9 100) \<noteq> Inr (LikeToggled ''Post liked'' True 1) \<and>
   likes (snd (like_post store_thread 3 9 100)) = likes store_thread"
  by code_simp

text \<open>
  C4, amended: for every user and every target that resolves to a stored post (a stored
  comment), in a store whose ids are unique and older than the next id (every reachable
  store is, see \<open>reachable_ids_ok\<close>): when the user has no like on the target, one toggle
  answers \<open>isLiked = true\<close> with the previous count plus one; a second toggle right after
  answers \<open>isLiked = false\<close> with the count from before the first, and leaves every
  collection, the likes among them, as it was before the first toggle (only the id
  counter has advanced).
\<close>

theorem like_toggle_twice:
  "(ids_ok s \<and> pid \<in> post_id ` set (posts s) \<and> \<not> user_liked s uid TPost pid \<longrightarrow>
      fst (like_post s uid pid now) =
        Inr (LikeToggled ''Post liked'' True (count_likes s TPost pid + 1)) \<and>
      fst (like_post (snd (like_post s uid pid now)) uid pid now') =
        Inr (LikeToggled ''Post unliked'' False (count_likes s TPost pid)) \<and>
      snd (like_post (snd (like_post s uid pid now)) uid pid now') =
        s\<lparr>next_id := Suc (next_id s)\<rparr> \<and>
      likes (snd (like_post (snd (like_post s uid pid now)) uid pid now')) = likes s) \<and>
   (ids_ok s \<and> cid \<in> comment_id ` set (comments s) \<and> \<not> user_liked s uid TComment cid \<longrightarrow>
      fst (like_comment s uid cid now) =
        Inr (LikeToggled ''Comment liked'' True (count_likes s TComment cid + 1)) \<and>
      fst (like_comment (snd (like_comment s uid cid now)) uid cid now') =
        Inr (LikeToggled ''Comment unliked'' False (count_likes s TComment cid)) \<and>
      snd (like_comment (snd (like_comment s uid cid now)) uid cid now') =
        s\<lparr>next_id := Suc (next_id s)\<rparr> \<and>
      likes (snd (like_comment (snd (like_comment s uid cid now)) uid cid now')) = likes s)"
proof (intro conjI impI)
  assume a: "ids_ok s \<and> pid \<in> post_id ` set (posts s) \<and> \<not> user_liked s uid TPost pid"
  then have h: "ids_ok s" "pid \<in> post_id ` set (posts s)" "\<not> user_liked s uid TPost pid"
    by simp_all
  note t = like_post_twice [OF h]
  show "fst (like_post s uid pid now) =
        Inr (LikeToggled ''Post liked'' True (count_likes s TPost pid + 1))"
    by (simp add: t(1))
  show "fst (like_post (snd (like_post s uid pid now)) uid pid now') =
        Inr (LikeToggled ''Post unliked'' False (count_likes s TPost pid))"
    by (simp add: t(2))
  show "snd (like_post (snd (like_post s uid pid now)) uid pid now') =
        s\<lparr>next_id := Suc (next_id s)\<rparr>"
    by (simp add: t(2))
  show "likes (snd (like_post (snd (like_post s uid pid now)) uid pid now')) = likes s"
    by (simp add: t(2))
next
  assume a: "ids_ok s \<and> cid \<in> comment_id ` set (comments s) \<and> \<not> user_liked s uid TComment cid"
  then have h: "ids_ok s" "cid \<in> comment_id ` set (comments s)"
    "\<not> user_liked s uid TComment cid"
    by simp_all
  note t = like_comment_twice [OF h]
  show "fst (like_comment s uid cid now) =
        Inr (LikeToggled ''Comment liked'' True (count_likes s TComment cid + 1))"
    by (simp add: t(1))
  show "fst (like_comment (snd (like_comment s uid cid now)) uid cid now') =
        Inr (LikeToggled ''Comment unliked'' False (count_likes s TComment cid))"
    by (simp add: t(2))
  show "snd (like_comment (snd (like_comment s uid cid now)) uid cid now') =
        s\<lparr>next_id := Suc (next_id s)\<rparr>"
    by (simp add: t(2))
  show "likes (snd (like_comment (snd (like_comment s uid cid now)) uid cid now')) = likes s"
    by (simp add: t(2))
qed

text \<open>The amended C4 at the thread: user 3 likes post 0 twice, and reply 2 twice.\<close>

theorem like_toggle_twice_witness:
  "fst (like_post store_thread 3 0 40) = Inr (LikeToggled ''Post liked'' True 1) \<and>
   fst (like_post (snd (like_post store_thread 3 0 40)) 3 0 50) =
     Inr (LikeToggled ''Post unliked'' False 0) \<and>
   likes (snd (like_post (snd (like_post store_thread 3 0 40)) 3 0 50)) = [] \<and>
   fst (like_comment store_thread 3 2 40) = Inr (LikeToggled ''Comment liked'' True 1) \<and>
   fst (like_comment (snd (like_comment store_thread 3 2 40)) 3 2 50) =
     Inr (LikeToggled ''Comment unliked'' False 0) \<and>
   likes (snd (like_comment (snd (like_comment store_thread 3 2 40)) 3 2 50)) = []"
proof -
  have h: "ids_ok store_thread \<and> 0 \<in> post_id ` set (posts store_thread) \<and>
           \<not> user_liked store_thread 3 TPost 0"
    "ids_ok store_thread \<and> 2 \<in> comment_id ` set (comments store_thread) \<and>
     \<not> user_liked store_thread 3 TComment 2"
    using store_thread_ids_ok by (simp_all add: store_thread_eval user_liked_def)
  have c: "count_likes store_thread TPost 0 = 0" "count_likes store_thread TComment 2 = 0"
    "likes store_thread = []"
    by (simp_all add: store_thread_eval count_likes_def)
  note t = like_toggle_twice [of store_thread 0 3 40 50 2]
  from t h(1) have
    "fst (like_post store_thread 3 0 40) =
        Inr (LikeToggled ''Post liked'' True (count_likes store_thread TPost 0 + 1)) \<and>
     fst (like_post (snd (like_post store_thread 3 0 40)) 3 0 50) =
        Inr (LikeToggled ''Post unliked'' False (count_likes store_thread TPost 0)) \<and>
     likes (snd (like_post (snd (like_post store_thread 3 0 40)) 3 0 50)) = likes store_thread"
    by blast
  moreover from t h(2) have
    "fst (like_comment store_thread 3 2 40) =
        Inr (LikeToggled ''Comment liked'' True (count_likes store_thread TComment 2 + 1)) \<and>
     fst (like_comment (snd (like_comment store_thread 3 2 40)) 3 2 50) =
        Inr (LikeToggled ''Comment unliked'' False (count_likes store_thread TComment 2)) \<and>
     likes (snd (like_comment (snd (like_comment store_thread 3 2 40)) 3 2 50)) =
        likes store_thread"
    by blast
  ultimately show ?thesis unfolding c by simp
qed

section \<open>Like toggle and the existence of its target\<close>

lemma delete_by_id_remove1:
  "distinct (map f xs) \<Longrightarrow> l \<in> set xs \<Longrightarrow> delete_by_id f (f l) xs = remove1 l xs"
proof (induction xs)
  case Nil
  then show ?case by simp
next
  case (Cons x xs)
  show ?case
  proof (cases "x = l")
    case True
    then show ?thesis by simp
  next
    case False
    with Cons.prems have l: "l \<in> set xs" by simp
    with Cons.prems have "f x \<noteq> f l" by (metis distinct.simps(2) imageI list.simps(9) list.set_map)
    with Cons False l show ?thesis by simp
  qed
qed

lemma length_filter_remove1:
  "l \<in> set xs \<Longrightarrow> P l \<Longrightarrow> length (filter P (remove1 l xs)) = length (filter P xs) - 1"
proof (induction xs)
  case Nil
  then show ?case by simp
next
  case (Cons a xs)
  show ?case
  proof (cases "a = l")
    case True
    with Cons.prems show ?thesis by simp
  next
    case False
    with Cons.prems have l: "l \<in> set xs" by simp
    with Cons.prems have "l \<in> set (filter P xs)" by simp
    then have "0 < length (filter P xs)"
      by (rule length_pos_if_in_set)
    with Cons.IH [OF l Cons.prems(2)] False show ?thesis by simp
  qed
qed

text \<open>Unliking: the requester's like of the target is found and removed.\<close>

lemma toggle_like_off:
  assumes "user_liked s uid tt tid" and "distinct (map like_id (likes s))"
  shows "\<exists>l. l \<in> set (likes s) \<and> like_user l = uid \<and> like_targetType l = tt \<and>
             like_targetId l = tid \<and>
             toggle_like tt m1 m2 s uid tid now =
               (Inr (LikeToggled m1 False (count_likes s tt tid - 1)),
                s\<lparr>likes := remove1 l (likes s)\<rparr>)"
proof -
  from assms(1) obtain l where f: "find (like_filter_user uid tt tid) (likes s) = Some l"
    by (auto simp: user_liked_def)
  then have l: "l \<in> set (likes s)" and u: "like_filter_user uid tt tid l"
    by (auto simp: find_Some_iff)
  from u have k: "like_user l = uid" "like_targetType l = tt" "like_targetId l = tid"
    by (simp_all add: like_filter_user_def)
  then have p: "like_filter tt tid l" by (simp add: like_filter_def)
  have del: "delete_by_id like_id (like_id l) (likes s) = remove1 l (likes s)"
    by (rule delete_by_id_remove1 [OF assms(2) l])
  have "toggle_like tt m1 m2 s uid tid now =
               (Inr (LikeToggled m1 False (count_likes s tt tid - 1)),
                s\<lparr>likes := remove1 l (likes s)\<rparr>)"
    by (simp add: toggle_like_def f del Let_def count_likes_def length_filter_remove1 [of l "likes s" "like_filter tt tid", OF l p])
  with l k show ?thesis by blast
qed

text \<open>
  Against C1: a like request for an id that resolves to no post (no comment) is answered
  404 and leaves the store as it was; no like is created. Here user 1 likes post 7 in the
  empty database, and comment 7 in a database that holds one post only.
\<close>

theorem like_toggle_missing_target_counterexample:
  "like_post (init_store []) 1 7 100 = (Inl (NotFound ''Post not found''), init_store []) \<and>
   like_comment store_one_post 1 7 100 = (Inl (NotFound ''Comment not found''), store_one_post) \<and>
   likes (snd (like_post (init_store []) 1 7 100)) = [] \<and>
   likes (snd (like_comment store_one_post 1 7 100)) = []"
  by code_simp

text \<open>
  C1, amended: both like routes look their target up first. When the id resolves to no
  stored post (for the post route) or to no stored comment (for the comment route), the
  request fails with NotFound, status 404, and the store is unchanged: no like is created
  or deleted. When the target is stored, the toggle runs: if the requester has no like on
  it, a like of the requester on the target is appended to the likes and the answer is
  liked with the count raised by one; if the requester has one, that like is removed from
  the likes (ids being unique) and the answer is unliked with the count lowered by one.
  Nothing else in the store changes, the id counter apart.
\<close>

theorem like_toggle_checks_target:
  "(pid \<notin> post_id ` set (posts s) \<longrightarrow>
      like_post s uid pid now = (Inl (NotFound ''Post not found''), s) \<and>
      status (fst (like_post s uid pid now)) = 404) \<and>
   (cid \<notin> comment_id ` set (comments s) \<longrightarrow>
      like_comment s uid cid now = (Inl (NotFound ''Comment not found''), s) \<and>
      status (fst (like_comment s uid cid now)) = 404) \<and>
   (pid \<in> post_id ` set (posts s) \<and> \<not> user_liked s uid TPost pid \<longrightarrow>
      like_post s uid pid now =
        (Inr (LikeToggled ''Post liked'' True (count_likes s TPost pid + 1)),
         s\<lparr>likes := likes s @
               [\<lparr>like_id = next_id s, like_user = uid, like_targetType = TPost,
                 like_targetId = pid, like_createdAt = now, like_updatedAt = now\<rparr>],
           next_id := Suc (next_id s)\<rparr>)) \<and>
   (pid \<in> post_id ` set (posts s) \<and> user_liked s uid TPost pid \<and> ids_ok s \<longrightarrow>
      (\<exists>l. l \<in> set (likes s) \<and> like_user l = uid \<and> like_targetType l = TPost \<and>
           like_targetId l = pid \<and>
           like_post s uid pid now =
             (Inr (LikeToggled ''Post unliked'' False (count_likes s TPost pid - 1)),
              s\<lparr>likes := remove1 l (likes s)\<rparr>))) \<and>
   (cid \<in> comment_id ` set (comments s) \<and> \<not> user_liked s uid TComment cid \<longrightarrow>
      like_comment s uid cid now =
        (Inr (LikeToggled ''Comment liked'' True (count_likes s TComment cid + 1)),
         s\<lparr>likes := likes s @
               [\<lparr>like_id = next_id s, like_user = uid, like_targetType = TComment,
                 like_targetId = cid, like_createdAt = now, like_updatedAt = now\<rparr>],
           next_id := Suc (next_id s)\<rparr>)) \<and>
   (cid \<in> comment_id ` set (comments s) \<and> user_liked s uid TComment cid \<and> ids_ok s \<longrightarrow>
      (\<exists>l. l \<in> set (likes s) \<and> like_user l = uid \<and> like_targetType l = TComment \<and>
           like_targetId l = cid \<and>
           like_comment s uid cid now =
             (Inr (LikeToggled ''Comment unliked'' False (count_likes s TComment cid - 1)),
              s\<lparr>likes := remove1 l (likes s)\<rparr>)))"
proof (intro conjI impI)
  assume "pid \<notin> post_id ` set (posts s)"
  then have "find_post s pid = None"
    by (auto simp: find_post_def find_None_iff)
  then show "like_post s uid pid now = (Inl (NotFound ''Post not found''), s)"
    and "status (fst (like_post s uid pid now)) = 404"
    by (simp_all add: like_post_def)
next
  assume "cid \<notin> comment_id ` set (comments s)"
  then have "find_comment s cid = None"
    by (auto simp: find_comment_def find_None_iff)
  then show "like_comment s uid cid now = (Inl (NotFound ''Comment not found''), s)"
    and "status (fst (like_comment s uid cid now)) = 404"
    by (simp_all add: like_comment_def)
next
  assume a: "pid \<in> post_id ` set (posts s) \<and> \<not> user_liked s uid TPost pid"
  then obtain p where p: "find_post s pid = Some p" using find_post_in by blast
  from a have "find (like_filter_user uid TPost pid) (likes s) = None"
    by (simp add: user_liked_find)
  then show "like_post s uid pid now =
        (Inr (LikeToggled ''Post liked'' True (count_likes s TPost pid + 1)),
         s\<lparr>likes := likes s @
               [\<lparr>like_id = next_id s, like_user = uid, like_targetType = TPost,
                 like_targetId = pid, like_createdAt = now, like_updatedAt = now\<rparr>],
           next_id := Suc (next_id s)\<rparr>)"
    by (simp add: like_post_def p toggle_like_on)
next
  assume a: "pid \<in> post_id ` set (posts s) \<and> user_liked s uid TPost pid \<and> ids_ok s"
  then obtain p where p: "find_post s pid = Some p" using find_post_in by blast
  from a have "user_liked s uid TPost pid" "distinct (map like_id (likes s))"
    by (simp_all add: ids_ok_def)
  from toggle_like_off [OF this, of "''Post unliked''" "''Post liked''" now]
  show "\<exists>l. l \<in> set (likes s) \<and> like_user l = uid \<and> like_targetType l = TPost \<and>
           like_targetId l = pid \<and>
           like_post s uid pid now =
             (Inr (LikeToggled ''Post unliked'' False (count_likes s TPost pid - 1)),
              s\<lparr>likes := remove1 l (likes s)\<rparr>)"
    by (simp add: like_post_def p)
next
  assume a: "cid \<in> comment_id ` set (comments s) \<and> \<not> user_liked s uid TComment cid"
  then obtain c where c: "find_comment s cid = Some c" using find_comment_in by blast
  from a have "find (like_filter_user uid TComment cid) (likes s) = None"
    by (simp add: user_liked_find)
  then show "like_comment s uid cid now =
        (Inr (LikeToggled ''Comment liked'' True (count_likes s TComment cid + 1)),
         s\<lparr>likes := likes s @
               [\<lparr>like_id = next_id s, like_user = uid, like_targetType = TComment,
                 like_targetId = cid, like_createdAt = now, like_updatedAt = now\<rparr>],
           next_id := Suc (next_id s)\<rparr>)"
    by (simp add: like_comment_def c toggle_like_on)
next
  assume a: "cid \<in> comment_id ` set (comments s) \<and> user_liked s uid TComment cid \<and> ids_ok s"
  then obtain c where c: "find_comment s cid = Some c" using find_comment_in by blast
  from a have "user_liked s uid TComment cid" "distinct (map like_id (likes s))"
    by (simp_all add: ids_ok_def)
  from toggle_like_off [OF this, of "''Comment unliked''" "''Comment liked''" now]
  show "\<exists>l. l \<in> set (likes s) \<and> like_user l = uid \<and> like_targetType l = TComment \<and>
           like_targetId l = cid \<and>
           like_comment s uid cid now =
             (Inr (LikeToggled ''Comment unliked'' False (count_likes s TComment cid - 1)),
              s\<lparr>likes := remove1 l (likes s)\<rparr>)"
    by (simp add: like_comment_def c)
qed

text \<open>The amended C1 at the thread: user 2 likes post 5 and comment 5, which are not
  stored, and post 0 and comment 1, which are; at the liked thread user 3 takes back the
  likes on post 0 and on comment 1.\<close>

theorem like_toggle_checks_target_witness:
  "like_post store_thread 2 5 100 = (Inl (NotFound ''Post not found''), store_thread) \<and>
   like_comment store_thread 2 5 100 = (Inl (NotFound ''Comment not found''), store_thread) \<and>
   fst (like_post store_thread 2 0 100) = Inr (LikeToggled ''Post liked'' True 1) \<and>
   map like_id (likes (snd (like_post store_thread 2 0 100))) = [3] \<and>
   fst (like_comment store_thread 2 1 100) = Inr (LikeToggled ''Comment liked'' True 1) \<and>
   map like_targetId (likes (snd (like_comment store_thread 2 1 100))) = [1] \<and>
   fst (like_post store_thread_liked 3 0 100) = Inr (LikeToggled ''Post unliked'' False 0) \<and>
   map like_id (likes (snd (like_post store_thread_liked 3 0 100))) = [4, 5] \<and>
   fst (like_comment store_thread_liked 3 1 100) = Inr (LikeToggled ''Comment unliked'' False 0) \<and>
   map like_id (likes (snd (like_comment store_thread_liked 3 1 100))) = [3, 5]"
proof -
  note t1 = like_toggle_checks_target [of 5 store_thread 2 100 5]
  note t2 = like_toggle_checks_target [of 0 store_thread 2 100 1]
  note t3 = like_toggle_checks_target [of 0 store_thread_liked 3 100 1]
  have missing: "5 \<notin> post_id ` set (posts store_thread)"
    "5 \<notin> comment_id ` set (comments store_thread)"
    by (simp_all add: store_thread_eval)
  have fresh: "0 \<in> post_id ` set (posts store_thread) \<and> \<not> user_liked store_thread 2 TPost 0"
    "1 \<in> comment_id ` set (comments store_thread) \<and> \<not> user_liked store_thread 2 TComment 1"
    by (simp_all add: store_thread_eval user_liked_def)
  have liked: "0 \<in> post_id ` set (posts store_thread_liked) \<and>
               user_liked store_thread_liked 3 TPost 0 \<and> ids_ok store_thread_liked"
    "1 \<in> comment_id ` set (comments store_thread_liked) \<and>
     user_liked store_thread_liked 3 TComment 1 \<and> ids_ok store_thread_liked"
    using reachable_ids_ok [OF store_thread_liked_reachable]
    by (simp_all add: store_thread_liked_eval user_liked_def like_filter_user_def)
  from t1 missing have a: "like_post store_thread 2 5 100 =
      (Inl (NotFound ''Post not found''), store_thread)"
    "like_comment store_thread 2 5 100 = (Inl (NotFound ''Comment not found''), store_thread)"
    by blast+
  from t2 fresh(1) have "like_post store_thread 2 0 100 =
        (Inr (LikeToggled ''Post liked'' True (count_likes store_thread TPost 0 + 1)),
         store_thread\<lparr>likes := likes store_thread @
               [\<lparr>like_id = next_id store_thread, like_user = 2, like_targetType = TPost,
                 like_targetId = 0, like_createdAt = 100, like_updatedAt = 100\<rparr>],
           next_id := Suc (next_id store_thread)\<rparr>)"
    by blast
  then have b: "fst (like_post store_thread 2 0 100) = Inr (LikeToggled ''Post liked'' True 1)"
    "map like_id (likes (snd (like_post store_thread 2 0 100))) = [3]"
    by (simp_all add: store_thread_eval count_likes_def)
  from t2 fresh(2) have "like_comment store_thread 2 1 100 =
        (Inr (LikeToggled ''Comment liked'' True (count_likes store_thread TComment 1 + 1)),
         store_thread\<lparr>likes := likes store_thread @
               [\<lparr>like_id = next_id store_thread, like_user = 2, like_targetType = TComment,
                 like_targetId = 1, like_createdAt = 100, like_updatedAt = 100\<rparr>],
           next_id := Suc (next_id store_thread)\<rparr>)"
    by blast
  then have c: "fst (like_comment store_thread 2 1 100) =
                  Inr (LikeToggled ''Comment liked'' True 1)"
    "map like_targetId (likes (snd (like_comment store_thread 2 1 100))) = [1]"
    by (simp_all add: store_thread_eval count_likes_def)
  from t3 liked(1) obtain l where l: "l \<in> set (likes store_thread_liked)"
    "like_targetType l = TPost" "like_targetId l = 0"
    "like_post store_thread_liked 3 0 100 =
       (Inr (LikeToggled ''Post unliked'' False (count_likes store_thread_liked TPost 0 - 1)),
        store_thread_liked\<lparr>likes := remove1 l (likes store_thread_liked)\<rparr>)"
    by blast
  from l(1,2,3) have "like_id l = 3"
    by (auto simp: store_thread_liked_eval)
  with l(1) have "map like_id (remove1 l (likes store_thread_liked)) = [4, 5]"
    by (auto simp: store_thread_liked_eval)
  with l(4) have d: "fst (like_post store_thread_liked 3 0 100) =
                       Inr (LikeToggled ''Post unliked'' False 0)"
    "map like_id (likes (snd (like_post store_thread_liked 3 0 100))) = [4, 5]"
    by (simp_all add: store_thread_liked_eval count_likes_def like_filter_def)
  from t3 liked(2) obtain m where m: "m \<in> set (likes store_thread_liked)"
    "like_targetType m = TComment" "like_targetId m = 1"
    "like_comment store_thread_liked 3 1 100 =
       (Inr (LikeToggled ''Comment unliked'' False
              (count_likes store_thread_liked TComment 1 - 1)),
        store_thread_liked\<lparr>likes := remove1 m (likes store_thread_liked)\<rparr>)"
    by blast
  from m(1,2,3) have "like_id m = 4"
    by (auto simp: store_thread_liked_eval)
  with m(1) have "map like_id (remove1 m (likes store_thread_liked)) = [3, 5]"
    by (auto simp: store_thread_liked_eval)
  with m(4) have e: "fst (like_comment store_thread_liked 3 1 100) =
                       Inr (LikeToggled ''Comment unliked'' False 0)"
    "map like_id (likes (snd (like_comment store_thread_liked 3 1 100))) = [3, 5]"
    by (simp_all add: store_thread_liked_eval count_likes_def like_filter_def)
  from a b c d e show ?thesis by simp
qed

section \<open>Deleting a post\<close>

lemma length_filter_distinct_id:
  "distinct (map f xs) \<Longrightarrow> x \<in> set xs \<Longrightarrow>
     length (filter (\<lambda>y. f y \<noteq> f x) xs) + 1 = length xs"
proof (induction xs)
  case Nil
  then show ?case by simp
next
  case (Cons a xs)
  show ?case
  proof (cases "f a = f x")
    case True
    with Cons.prems have "\<forall>y\<in>set xs. f y \<noteq> f x" by (metis distinct.simps(2) imageI list.simps(9) list.set_map)
    then have "filter (\<lambda>y. f y \<noteq> f x) xs = xs" by (simp add: filter_id_conv)
    with True show ?thesis by simp
  next
    case False
    with Cons.prems have "x \<in> set xs" by auto
    with Cons False show ?thesis by simp
  qed
qed

lemma store_thread_liked_ids_ok: "ids_ok store_thread_liked"
  by (rule reachable_ids_ok [OF store_thread_liked_reachable])

text \<open>
  C7: a successful post deletion is one by the author of a stored post. It removes that
  post (exactly one document, ids being unique) and the likes with targetType Post and
  that targetId; the comments, the comments of the deleted post among them, the other
  likes, the users and the other posts stay as they are.
\<close>

theorem delete_post_effect:
  assumes "ids_ok s" and "fst (delete_post s uid pid) = Inr r"
  shows "(\<exists>p. find_post s pid = Some p \<and> post_author p = uid) \<and>
         r = Deleted ''Post deleted successfully'' \<and>
         posts (snd (delete_post s uid pid)) = filter (\<lambda>p. post_id p \<noteq> pid) (posts s) \<and>
         length (posts (snd (delete_post s uid pid))) + 1 = length (posts s) \<and>
         likes (snd (delete_post s uid pid)) =
           filter (\<lambda>l. \<not> (like_targetType l = TPost \<and> like_targetId l = pid)) (likes s) \<and>
         comments (snd (delete_post s uid pid)) = comments s \<and>
         users (snd (delete_post s uid pid)) = users s \<and>
         next_id (snd (delete_post s uid pid)) = next_id s"
proof -
  from assms(2) obtain p where p: "find_post s pid = Some p" "post_author p = uid"
    by (auto simp: delete_post_def split: option.splits if_splits)
  from assms(1) have d: "distinct (map post_id (posts s))"
    by (simp add: ids_ok_def)
  have del: "delete_by_id post_id pid (posts s) = filter (\<lambda>p. post_id p \<noteq> pid) (posts s)"
    by (rule delete_by_id_filter [OF d])
  from p(1) have in_posts: "p \<in> set (posts s)" and pid: "post_id p = pid"
    by (auto simp: find_post_def find_Some_iff)
  have len: "length (filter (\<lambda>p. post_id p \<noteq> pid) (posts s)) + 1 = length (posts s)"
    using length_filter_distinct_id [OF d in_posts] by (simp add: pid)
  from assms(2) p del len show ?thesis
    by (simp add: delete_post_def Let_def like_filter_def)
qed

text \<open>C7 at the liked thread: user 1 deletes post 0. The like on the post (like 3) goes;
  comments 1 and 2 of the post and the likes 4 and 5 on them stay.\<close>

theorem delete_post_effect_witness:
  "posts (snd (delete_post store_thread_liked 1 0)) = [] \<and>
   map like_id (likes (snd (delete_post store_thread_liked 1 0))) = [4, 5] \<and>
   comments (snd (delete_post store_thread_liked 1 0)) = comments store_thread_liked \<and>
   map comment_id (comments (snd (delete_post store_thread_liked 1 0))) = [1, 2]"
proof -
  have ok: "fst (delete_post store_thread_liked 1 0) = Inr (Deleted ''Post deleted successfully'')"
    by code_simp
  from delete_post_effect [OF store_thread_liked_ids_ok ok] show ?thesis
    by (simp add: store_thread_liked_eval)
qed

section \<open>Deleting a comment\<close>

text \<open>
  C8: a successful comment deletion is one by the author of a stored comment. It removes
  exactly the comment and the comments whose parent it is, and exactly the likes with
  targetType Comment and the comment's id as targetId. A like on a removed reply stays in
  the store while the reply is gone.
\<close>

theorem delete_comment_effect:
  assumes "fst (delete_comment s uid cid) = Inr r"
  shows "(\<exists>c. find_comment s cid = Some c \<and> comment_author c = uid) \<and>
         r = Deleted ''Comment deleted successfully'' \<and>
         comments (snd (delete_comment s uid cid)) =
           filter (\<lambda>d. comment_id d \<noteq> cid \<and> comment_parent d \<noteq> Some cid) (comments s) \<and>
         likes (snd (delete_comment s uid cid)) =
           filter (\<lambda>l. \<not> (like_targetType l = TComment \<and> like_targetId l = cid)) (likes s) \<and>
         posts (snd (delete_comment s uid cid)) = posts s \<and>
         users (snd (delete_comment s uid cid)) = users s \<and>
         next_id (snd (delete_comment s uid cid)) = next_id s \<and>
         (\<forall>d\<in>set (comments s). \<forall>l\<in>set (likes s).
            comment_parent d = Some cid \<and> comment_id d \<noteq> cid \<and>
            like_targetType l = TComment \<and> like_targetId l = comment_id d \<longrightarrow>
              d \<notin> set (comments (snd (delete_comment s uid cid))) \<and>
              l \<in> set (likes (snd (delete_comment s uid cid))))"
proof -
  from assms obtain c where c: "find_comment s cid = Some c" "comment_author c = uid"
    by (auto simp: delete_comment_def split: option.splits if_splits)
  from assms c have st: "snd (delete_comment s uid cid) =
      s\<lparr>comments := filter (\<lambda>d. \<not> (comment_id d = cid \<or> comment_parent d = Some cid)) (comments s),
        likes := filter (\<lambda>l. \<not> like_filter TComment cid l) (likes s)\<rparr>"
    and r: "r = Deleted ''Comment deleted successfully''"
    by (simp_all add: delete_comment_def Let_def)
  show ?thesis
    unfolding st using c r by (auto simp: like_filter_def)
qed

text \<open>C8 at the liked thread: user 1 deletes comment 1. Comment 1 and its reply 2 go, the
  like on comment 1 (like 4) goes, and like 5, on the removed reply 2, stays.\<close>

theorem delete_comment_effect_witness:
  "map comment_id (comments store_thread_liked) = [1, 2] \<and>
   map like_targetId (likes store_thread_liked) = [0, 1, 2] \<and>
   comments (snd (delete_comment store_thread_liked 1 1)) = [] \<and>
   map like_id (likes (snd (delete_comment store_thread_liked 1 1))) = [3, 5] \<and>
   map like_targetType (likes (snd (delete_comment store_thread_liked 1 1))) = [TPost, TComment] \<and>
   map like_targetId (likes (snd (delete_comment store_thread_liked 1 1))) = [0, 2]"
proof -
  have ok: "fst (delete_comment store_thread_liked 1 1) =
              Inr (Deleted ''Comment deleted successfully'')"
    by code_simp
  from delete_comment_effect [OF ok] show ?thesis
    by (simp add: store_thread_liked_eval)
qed

section \<open>The feed\<close>

lemma mset_sort_desc: "mset (sort_desc f xs) = mset xs"
  by (simp add: sort_desc_def)

lemma set_sort_desc: "set (sort_desc f xs) = set xs"
  by (simp add: sort_desc_def)

lemma length_sort_desc: "length (sort_desc f xs) = length xs"
  by (simp add: sort_desc_def)

lemma sorted_sort_desc: "sorted_wrt (\<lambda>a b. f b \<le> f a) (sort_desc f xs)"
proof -
  have "sorted (map f (sort_key f xs))" by (rule sorted_sort_key)
  then have "sorted_wrt (\<lambda>a b. f a \<le> f b) (sort_key f xs)"
    by (simp add: sorted_wrt_map)
  then show ?thesis
    by (simp add: sort_desc_def sorted_wrt_rev)
qed

lemma mset_feed_query: "mset (feed_query s uid) = mset (filter (visible_to uid) (posts s))"
  by (simp add: feed_query_def mset_sort_desc)

lemma length_feed_query: "length (feed_query s uid) = length (filter (visible_to uid) (posts s))"
  by (simp add: feed_query_def length_sort_desc)

lemma sorted_feed_query:
  "sorted_wrt (\<lambda>a b. post_createdAt b \<le> post_createdAt a) (feed_query s uid)"
  by (simp add: feed_query_def sorted_sort_desc)

lemma feed_query_visible: "p \<in> set (feed_query s uid) \<Longrightarrow> visible_to uid p"
  by (simp add: feed_query_def set_sort_desc)

lemma fi_post_annotate: "map (fi_post \<circ> annotate_post s uid) ps = ps"
  by (induction ps) (simp_all add: annotate_post_def)

text \<open>The posts of any feed response are a slice of the query result.\<close>

lemma feed_posts_slice:
  "\<exists>i j. feed_posts (get_feed s uid qpage qlimit) = take i (drop j (feed_query s uid))"
proof (cases "(parse_or qpage 1 - 1) * parse_or qlimit 10 < 0")
  case True
  then have "feed_posts (get_feed s uid qpage qlimit) = take 0 (drop 0 (feed_query s uid))"
    by (simp add: get_feed_def feed_posts_def Let_def)
  then show ?thesis by blast
next
  case False
  then have "feed_posts (get_feed s uid qpage qlimit) =
      take (nat \<bar>parse_or qlimit 10\<bar>)
        (drop (nat ((parse_or qpage 1 - 1) * parse_or qlimit 10)) (feed_query s uid))"
    by (simp add: get_feed_def feed_posts_def Let_def fi_post_annotate)
  then show ?thesis by blast
qed

lemma feed_posts_subset: "set (feed_posts (get_feed s uid qpage qlimit)) \<subseteq> set (feed_query s uid)"
proof -
  obtain i j where "feed_posts (get_feed s uid qpage qlimit) = take i (drop j (feed_query s uid))"
    using feed_posts_slice by blast
  then show ?thesis
    by (metis set_take_subset set_drop_subset subset_trans)
qed

lemma feed_posts_sorted:
  "sorted_wrt (\<lambda>a b. post_createdAt b \<le> post_createdAt a)
     (feed_posts (get_feed s uid qpage qlimit))"
proof -
  obtain i j where "feed_posts (get_feed s uid qpage qlimit) = take i (drop j (feed_query s uid))"
    using feed_posts_slice by blast
  then show ?thesis
    by (simp add: sorted_wrt_take sorted_wrt_drop sorted_feed_query)
qed

text \<open>A request with page and limit at least 1.\<close>

lemma get_feed_page:
  assumes "1 \<le> p" and "1 \<le> l"
  shows "get_feed s uid (Some p) (Some l) =
           Inr (Feed (map (annotate_post s uid)
                        (take (nat l) (drop (nat ((p - 1) * l)) (feed_query s uid))))
                  \<lparr>pg_page = p, pg_limit = l,
                   pg_total = length (filter (visible_to uid) (posts s)),
                   pg_pages = - ((- int (length (filter (visible_to uid) (posts s)))) div l)\<rparr>)"
proof -
  from assms have "0 \<le> (p - 1) * l" by simp
  then have "\<not> (p - 1) * l < 0" by simp
  with assms show ?thesis
    by (simp add: get_feed_def parse_or_def Let_def)
qed

lemma feed_posts_page:
  assumes "1 \<le> p" and "1 \<le> l"
  shows "feed_posts (get_feed s uid (Some p) (Some l)) =
           take (nat l) (drop (nat ((p - 1) * l)) (feed_query s uid))"
  by (simp add: get_feed_page [OF assms] feed_posts_def fi_post_annotate)

lemma concat_pages:
  "concat (map (\<lambda>k. take l (drop (k * l) xs)) [0..<n]) = take (n * l) xs"
proof (induction n)
  case 0
  then show ?case by simp
next
  case (Suc n)
  have "take (Suc n * l) xs = take (n * l + l) xs" by (simp add: add.commute)
  also have "\<dots> = take (n * l) xs @ take l (drop (n * l) xs)" by (rule take_add)
  finally show ?case using Suc by simp
qed

lemma ceil_div_nat:
  assumes "1 \<le> l"
  shows "- ((- int n) div l) = \<lceil>real n / real_of_int l\<rceil>"
proof -
  have "\<lceil>real_of_int (int n) / real_of_int l\<rceil> = - (- int n div l)"
    by (rule ceiling_divide_eq_div)
  then show ?thesis by simp
qed

lemma pages_cover:
  assumes "1 \<le> l"
  shows "n \<le> nat (- ((- int n) div l)) * nat l"
proof -
  let ?c = "- ((- int n) div l)"
  from assms have l0: "0 < l" by simp
  have "(- int n) div l * l + (- int n) mod l = - int n" by (rule div_mult_mod_eq)
  moreover have "0 \<le> (- int n) mod l" using l0 by (rule pos_mod_sign)
  ultimately have "(- int n) div l * l \<le> - int n" by linarith
  then have 1: "int n \<le> ?c * l" by (simp add: algebra_simps)
  have "(- int n) div l \<le> 0" using l0 by (simp add: div_nonpos_pos_le0)
  then have 2: "0 \<le> ?c" by simp
  from 1 2 l0 have "int n \<le> int (nat ?c * nat l)"
    by (simp add: nat_mult_distrib)
  then show ?thesis by linarith
qed

lemma visible_to_expand:
  "visible_to uid = (\<lambda>p. post_privacy p = ''public'' \<or> post_author p = uid)"
  by (simp add: visible_to_def fun_eq_iff)

lemma all_pages:
  assumes "1 \<le> l"
  shows "concat (map (\<lambda>k. feed_posts (get_feed s uid (Some (int k + 1)) (Some l)))
           [0..<nat \<lceil>real (length (filter (visible_to uid) (posts s))) / real_of_int l\<rceil>]) =
         feed_query s uid"
proof -
  let ?n = "length (filter (visible_to uid) (posts s))"
  let ?N = "nat (- ((- int ?n) div l))"
  have page: "feed_posts (get_feed s uid (Some (int k + 1)) (Some l)) =
                take (nat l) (drop (k * nat l) (feed_query s uid))" for k
  proof -
    have "nat ((int k + 1 - 1) * l) = k * nat l"
      using assms by (simp add: nat_mult_distrib)
    then show ?thesis
      using feed_posts_page [of "int k + 1" l s uid] assms by simp
  qed
  have "concat (map (\<lambda>k. feed_posts (get_feed s uid (Some (int k + 1)) (Some l))) [0..<?N]) =
        take (?N * nat l) (feed_query s uid)"
    by (simp add: page concat_pages)
  also have "\<dots> = feed_query s uid"
    using pages_cover [OF assms, of ?n] by (simp add: length_feed_query)
  finally show ?thesis
    by (simp add: ceil_div_nat [OF assms])
qed

lemma store_mixed_feed_eval:
  "map post_id (feed_posts (get_feed store_mixed 1 None None)) = [2, 0] \<and>
   map post_id (feed_posts (get_feed store_mixed 2 None None)) = [1, 0] \<and>
   map post_id (feed_posts (get_feed store_mixed 3 None None)) = [0] \<and>
   map post_privacy (posts store_mixed) = [''public'', ''private'', ''private''] \<and>
   map post_author (posts store_mixed) = [1, 2, 1] \<and>
   length (filter (visible_to 3) (posts store_mixed)) = 1"
  by code_simp

lemma store_25_posts_count: "length (filter (visible_to 1) (posts store_25_posts)) = 25"
  by code_simp

lemma store_25_posts_page2:
  "map post_id (feed_posts (get_feed store_25_posts 1 (Some 2) (Some 10))) =
     [14, 13, 12, 11, 10, 9, 8, 7, 6, 5]"
  by code_simp

text \<open>
  C5: for every requester and every store, each post of a feed response is public or
  authored by the requester, so a private post of somebody else is never returned, and
  the posts of a response are ordered by creation time, newest first. The listing is
  paginated: for every limit of at least 1, the pages 1, 2, ... up to the number of pages
  hold, one after the other, exactly the posts that are public or authored by the
  requester, newest first. When there are at most 10 such posts, the request without
  parameters returns them all.
\<close>

theorem feed_visible_newest_first:
  assumes "1 \<le> l"
  shows "(\<forall>p\<in>set (feed_posts (get_feed s uid qpage qlimit)).
            post_privacy p = ''public'' \<or> post_author p = uid) \<and>
         (\<forall>p\<in>set (feed_posts (get_feed s uid qpage qlimit)).
            post_privacy p = ''private'' \<longrightarrow> post_author p = uid) \<and>
         sorted_wrt (\<lambda>a b. post_createdAt b \<le> post_createdAt a)
           (feed_posts (get_feed s uid qpage qlimit)) \<and>
         mset (concat (map (\<lambda>k. feed_posts (get_feed s uid (Some (int k + 1)) (Some l)))
                 [0..<nat \<lceil>real (length (filter (visible_to uid) (posts s))) / real_of_int l\<rceil>])) =
           mset (filter (\<lambda>p. post_privacy p = ''public'' \<or> post_author p = uid) (posts s)) \<and>
         sorted_wrt (\<lambda>a b. post_createdAt b \<le> post_createdAt a)
           (concat (map (\<lambda>k. feed_posts (get_feed s uid (Some (int k + 1)) (Some l)))
              [0..<nat \<lceil>real (length (filter (visible_to uid) (posts s))) / real_of_int l\<rceil>])) \<and>
         (length (filter (visible_to uid) (posts s)) \<le> 10 \<longrightarrow>
            mset (feed_posts (get_feed s uid None None)) =
              mset (filter (\<lambda>p. post_privacy p = ''public'' \<or> post_author p = uid) (posts s)))"
proof -
  have vis: "\<forall>p\<in>set (feed_posts (get_feed s uid qpage qlimit)).
               post_privacy p = ''public'' \<or> post_author p = uid"
    using feed_posts_subset [of s uid qpage qlimit] feed_query_visible [of _ s uid]
    by (auto simp: visible_to_def)
  then have priv: "\<forall>p\<in>set (feed_posts (get_feed s uid qpage qlimit)).
               post_privacy p = ''private'' \<longrightarrow> post_author p = uid"
    by auto
  have dflt: "feed_posts (get_feed s uid None None) = take 10 (feed_query s uid)"
    using feed_posts_page [of 1 10 s uid] by (simp add: get_feed_def parse_or_def)
  have all10: "mset (feed_posts (get_feed s uid None None)) =
                 mset (filter (\<lambda>p. post_privacy p = ''public'' \<or> post_author p = uid) (posts s))"
    if "length (filter (visible_to uid) (posts s)) \<le> 10"
    using that by (simp add: dflt length_feed_query mset_feed_query visible_to_expand)
  have pages_mset:
    "mset (concat (map (\<lambda>k. feed_posts (get_feed s uid (Some (int k + 1)) (Some l)))
             [0..<nat \<lceil>real (length (filter (visible_to uid) (posts s))) / real_of_int l\<rceil>])) =
     mset (filter (\<lambda>p. post_privacy p = ''public'' \<or> post_author p = uid) (posts s))"
    unfolding all_pages [OF assms] by (simp add: mset_feed_query visible_to_expand)
  have pages_sorted:
    "sorted_wrt (\<lambda>a b. post_createdAt b \<le> post_createdAt a)
       (concat (map (\<lambda>k. feed_posts (get_feed s uid (Some (int k + 1)) (Some l)))
          [0..<nat \<lceil>real (length (filter (visible_to uid) (posts s))) / real_of_int l\<rceil>]))"
    unfolding all_pages [OF assms] by (rule sorted_feed_query)
  from vis priv feed_posts_sorted [of s uid qpage qlimit] pages_mset pages_sorted all10
  show ?thesis by blast
qed

text \<open>C5 at the store with a public post of user 1 and a private post each of users 2
  and 1: user 1 sees posts 2 and 0, user 2 sees posts 1 and 0, user 3 sees post 0.\<close>

theorem feed_visible_newest_first_witness:
  "map post_privacy (posts store_mixed) = [''public'', ''private'', ''private''] \<and>
   map post_author (posts store_mixed) = [1, 2, 1] \<and>
   map post_id (feed_posts (get_feed store_mixed 1 None None)) = [2, 0] \<and>
   map post_id (feed_posts (get_feed store_mixed 2 None None)) = [1, 0] \<and>
   map post_id (feed_posts (get_feed store_mixed 3 None None)) = [0] \<and>
   mset (feed_posts (get_feed store_mixed 3 None None)) =
     mset (filter (\<lambda>p. post_privacy p = ''public'' \<or> post_author p = 3) (posts store_mixed)) \<and>
   sorted_wrt (\<lambda>a b. post_createdAt b \<le> post_createdAt a)
     (feed_posts (get_feed store_mixed 1 None None))"
proof -
  have l: "(1::int) \<le> 1" by simp
  from feed_visible_newest_first [OF l, of store_mixed 3 None None]
       feed_visible_newest_first [OF l, of store_mixed 1 None None]
       store_mixed_feed_eval
  show ?thesis by simp
qed

text \<open>
  C6: for a page p and a limit l of at least 1, over a store with n posts that are public
  or authored by the requester, the listing skips the first (p - 1) * l of them in feed
  order and returns the next l at most, that is min l (n - (p - 1) * l) posts; the
  pagination reports page p, limit l, total n and pages = ceil(n / l). With n = 25, page 2
  with limit 10 returns exactly 10 posts, total 25 and pages 3. Page, limit and skip are
  numbers of JavaScript: the statement is for p, l and (p - 1) * l up to
  \<open>Number.MAX_SAFE_INTEGER\<close>, where its integers are exact.
\<close>

theorem feed_pagination:
  assumes "1 \<le> p" and "1 \<le> l"
    and "p \<le> max_safe_integer" and "l \<le> max_safe_integer"
    and "(p - 1) * l \<le> max_safe_integer"
  shows "get_feed s uid (Some p) (Some l) =
           Inr (Feed (map (annotate_post s uid)
                        (take (nat l) (drop (nat ((p - 1) * l)) (feed_query s uid))))
                  \<lparr>pg_page = p, pg_limit = l,
                   pg_total = length (filter (visible_to uid) (posts s)),
                   pg_pages = \<lceil>real (length (filter (visible_to uid) (posts s))) / real_of_int l\<rceil>\<rparr>) \<and>
         feed_posts (get_feed s uid (Some p) (Some l)) =
           take (nat l) (drop (nat ((p - 1) * l)) (feed_query s uid)) \<and>
         mset (feed_query s uid) = mset (filter (visible_to uid) (posts s)) \<and>
         length (feed_posts (get_feed s uid (Some p) (Some l))) =
           min (nat l) (length (filter (visible_to uid) (posts s)) - nat ((p - 1) * l)) \<and>
         length (feed_posts (get_feed s uid (Some p) (Some l))) \<le> nat l \<and>
         (length (filter (visible_to uid) (posts s)) = 25 \<longrightarrow>
            (\<exists>items. get_feed s uid (Some 2) (Some 10) =
                       Inr (Feed items \<lparr>pg_page = 2, pg_limit = 10, pg_total = 25, pg_pages = 3\<rparr>) \<and>
                     length items = 10))"
proof -
  let ?n = "length (filter (visible_to uid) (posts s))"
  have resp: "get_feed s uid (Some p) (Some l) =
           Inr (Feed (map (annotate_post s uid)
                        (take (nat l) (drop (nat ((p - 1) * l)) (feed_query s uid))))
                  \<lparr>pg_page = p, pg_limit = l, pg_total = ?n,
                   pg_pages = \<lceil>real ?n / real_of_int l\<rceil>\<rparr>)"
    unfolding ceil_div_nat [OF assms(2), symmetric] by (rule get_feed_page [OF assms(1,2)])
  note slice = feed_posts_page [OF assms(1,2), of s uid]
  have len: "length (feed_posts (get_feed s uid (Some p) (Some l))) =
               min (nat l) (?n - nat ((p - 1) * l))"
    by (simp add: slice length_feed_query min.commute)
  have inst: "\<exists>items. get_feed s uid (Some 2) (Some 10) =
                       Inr (Feed items \<lparr>pg_page = 2, pg_limit = 10, pg_total = 25, pg_pages = 3\<rparr>) \<and>
                     length items = 10" if n: "?n = 25"
  proof -
    have "get_feed s uid (Some 2) (Some 10) =
            Inr (Feed (map (annotate_post s uid) (take 10 (drop 10 (feed_query s uid))))
                  \<lparr>pg_page = 2, pg_limit = 10, pg_total = 25, pg_pages = 3\<rparr>)"
      using get_feed_page [of 2 10 s uid] by (simp add: n)
    moreover have "length (map (annotate_post s uid) (take 10 (drop 10 (feed_query s uid)))) = 10"
      by (simp add: length_feed_query n)
    ultimately show ?thesis by blast
  qed
  from resp slice len inst show ?thesis
    by (simp add: mset_feed_query)
qed

text \<open>C6 at the store with 25 public posts: page 2 with limit 10 holds the posts 14 down
  to 5.\<close>

theorem feed_pagination_witness:
  "length (filter (visible_to 1) (posts store_25_posts)) = 25 \<and>
   map post_id (feed_posts (get_feed store_25_posts 1 (Some 2) (Some 10))) =
     [14, 13, 12, 11, 10, 9, 8, 7, 6, 5] \<and>
   length (feed_posts (get_feed store_25_posts 1 (Some 2) (Some 10))) = 10 \<and>
   (\<exists>items. get_feed store_25_posts 1 (Some 2) (Some 10) =
              Inr (Feed items \<lparr>pg_page = 2, pg_limit = 10, pg_total = 25, pg_pages = 3\<rparr>) \<and>
            length items = 10)"
proof -
  have h: "(1::int) \<le> 2" "(1::int) \<le> 10" "2 \<le> max_safe_integer"
    "10 \<le> max_safe_integer" "(2 - 1) * 10 \<le> max_safe_integer"
    by (simp_all add: max_safe_integer_def)
  note t = feed_pagination [OF h, of store_25_posts 1]
  from t have "length (feed_posts (get_feed store_25_posts 1 (Some 2) (Some 10))) =
                 min (nat 10) (length (filter (visible_to 1) (posts store_25_posts)) -
                   nat ((2 - 1) * 10))"
    by blast
  then have len: "length (feed_posts (get_feed store_25_posts 1 (Some 2) (Some 10))) = 10"
    unfolding store_25_posts_count by simp
  from t store_25_posts_count
  have "\<exists>items. get_feed store_25_posts 1 (Some 2) (Some 10) =
              Inr (Feed items \<lparr>pg_page = 2, pg_limit = 10, pg_total = 25, pg_pages = 3\<rparr>) \<and>
            length items = 10"
    by blast
  with len store_25_posts_count store_25_posts_page2 show ?thesis by blast
qed

section \<open>Listing comments\<close>

lemma ci_comment_annotate: "map (ci_comment \<circ> annotate_comment s uid) cs = cs"
  by (induction cs) (simp_all add: annotate_comment_def)

lemma orphan_listing_eval:
  "find_post (snd (delete_post store_thread 1 0)) 0 = None \<and>
   map comment_id (listed_comments (list_comments (snd (delete_post store_thread 1 0)) 5 0)) = [1] \<and>
   find_post store_thread 9 = None \<and>
   list_comments store_thread 5 9 = Inr (CommentList [])"
  by code_simp

text \<open>
  C10: for every post id, stored or not, the comment listing succeeds with status 200
  and returns the top-level comments whose post field is that id, oldest first; the
  list may be empty. The route never looks the post up, so it never answers NotFound.
\<close>

theorem list_comments_no_post_check:
  "list_comments s uid pid =
     Inr (CommentList (map (annotate_comment s uid) (top_level_comments s pid))) \<and>
   status (list_comments s uid pid) = 200 \<and>
   list_comments s uid pid \<noteq> Inl (NotFound m) \<and>
   listed_comments (list_comments s uid pid) = top_level_comments s pid \<and>
   mset (listed_comments (list_comments s uid pid)) =
     mset (filter (\<lambda>c. comment_post c = pid \<and> comment_parent c = None) (comments s)) \<and>
   sorted (map comment_createdAt (listed_comments (list_comments s uid pid)))"
  by (simp add: list_comments_def listed_comments_def top_level_comments_def
        ci_comment_annotate)

text \<open>C10 where the post is missing: after post 0 of the thread is deleted, its listing
  still succeeds and still holds comment 1; the listing of post 9, which never existed,
  succeeds with the empty list.\<close>

theorem list_comments_no_post_check_witness:
  "find_post (snd (delete_post store_thread 1 0)) 0 = None \<and>
   status (list_comments (snd (delete_post store_thread 1 0)) 5 0) = 200 \<and>
   map comment_id (listed_comments (list_comments (snd (delete_post store_thread 1 0)) 5 0)) = [1] \<and>
   find_post store_thread 9 = None \<and>
   status (list_comments store_thread 5 9) = 200 \<and>
   list_comments store_thread 5 9 = Inr (CommentList [])"
  using list_comments_no_post_check [of "snd (delete_post store_thread 1 0)" 5 0]
        list_comments_no_post_check [of store_thread 5 9]
        orphan_listing_eval
  by simp

end
